theory Spec2Isabelle
  imports Complex_Main "HOL-Library.Word"
begin

unbundle bit_operations_syntax

section \<open>Numbers\<close>

text \<open>
  The program computes in single-precision \<open>float\<close>. The embedding idealises every
  \<open>float\<close> as a real number: the arithmetic below is exact, has no NaN and no
  infinity. The statements proved here are about the structure of the algorithms
  (which nodes are visited, which indices are read, which comparisons decide); they
  are not statements about rounding. \<open>int\<close> is modelled by HOL's integers (all
  \<open>int\<close> arithmetic of the quadtree stays far inside 32 bits), \<open>UINT\<close> by
  \<open>32 word\<close>, \<open>size_t\<close> and container sizes by \<open>nat\<close>.
\<close>

type_synonym float = real
type_synonym UINT = "32 word"

section \<open>QuadTree.h: the data\<close>

record XMFLOAT3 =
  x3 :: float
  y3 :: float
  z3 :: float

record XMFLOAT4 =
  x4 :: float
  y4 :: float
  z4 :: float
  w4 :: float

record BoundingBoxAABB =
  Center :: XMFLOAT3
  Extents :: XMFLOAT3

text \<open>
  \<open>struct TerrainNode\<close>. The scalar members form the record \<open>NodeData\<close>; the member
  \<open>Children[4]\<close> is the second argument of the constructor: the list of the
  non-null child pointers in index order 0,1,2,3 (empty for a node without
  children, four entries for a node split by \<open>BuildTree\<close>). Every loop over
  \<open>Children\<close> in the source skips null entries, so it is a loop over this list.
\<close>

record NodeData =
  X :: float
  Z :: float
  Size :: float
  LODLevel :: int
  MaxLOD :: int
  Bounds :: BoundingBoxAABB
  MinY :: float
  MaxY :: float
  IsLeaf :: bool
  IsVisible :: bool
  ObjectCBIndex :: UINT

datatype TerrainNode = TerrainNode (Fields: NodeData) (Children: "TerrainNode list")

record QuadTree =
  mRoot :: "TerrainNode option"
  mTerrainSize :: float
  mMinNodeSize :: float
  mMaxLODLevels :: int
  mLODDistances :: "float list"
  mVisibleNodeCount :: int
  mTotalNodeCount :: int
  mNextObjectCBIndex :: UINT

section \<open>QuadTree.cpp\<close>

text \<open>
  \<open>BoundingBoxAABB::Intersects\<close>: the loop over the planes 0..5 of the array
  \<open>frustumPlanes\<close> (a list here, which must hold at least 6 planes); the early
  \<open>return false\<close> makes the result the conjunction of \<open>\<not> d < 0\<close> over the planes.
\<close>

definition PlaneTest :: "BoundingBoxAABB \<Rightarrow> XMFLOAT4 \<Rightarrow> float" where
  "PlaneTest b pl =
     (let vx = (if x4 pl \<ge> 0 then x3 (Center b) + x3 (Extents b) else x3 (Center b) - x3 (Extents b));
          vy = (if y4 pl \<ge> 0 then y3 (Center b) + y3 (Extents b) else y3 (Center b) - y3 (Extents b));
          vz = (if z4 pl \<ge> 0 then z3 (Center b) + z3 (Extents b) else z3 (Center b) - z3 (Extents b))
      in x4 pl * vx + y4 pl * vy + z4 pl * vz + w4 pl)"

definition Intersects :: "BoundingBoxAABB \<Rightarrow> XMFLOAT4 list \<Rightarrow> bool" where
  "Intersects b frustumPlanes =
     list_all (\<lambda>p. \<not> PlaneTest b (frustumPlanes ! p) < 0) [0, 1, 2, 3, 4, 5]"

definition QuadTree_new :: QuadTree where
  "QuadTree_new =
     \<lparr>mRoot = None, mTerrainSize = 0, mMinNodeSize = 0, mMaxLODLevels = 0,
      mLODDistances = [], mVisibleNodeCount = 0, mTotalNodeCount = 0,
      mNextObjectCBIndex = 0\<rparr>"

definition SetLODDistances :: "QuadTree \<Rightarrow> float list \<Rightarrow> QuadTree" where
  "SetLODDistances q distances = q\<lparr>mLODDistances := distances\<rparr>"

text \<open>
  \<open>QuadTree::BuildTree\<close>. The node under construction is returned instead of
  being written through the pointer; \<open>mTotalNodeCount\<close> is threaded as the last
  argument and returned; \<open>mMinNodeSize\<close> and \<open>mMaxLODLevels\<close> are the first two
  arguments. A fresh \<open>TerrainNode\<close> has \<open>IsVisible = false\<close> and
  \<open>ObjectCBIndex = 0\<close> (the member initialisers).

  The arithmetic is exact here. In single precision \<open>size * 0.5f\<close> and
  \<open>size * 0.25f\<close> are exact as long as they do not underflow, but the child
  centres \<open>x \<plusminus> quarter\<close> and \<open>z \<plusminus> quarter\<close> are rounded. What is proved below
  about a built tree therefore concerns \<open>Size\<close>, \<open>IsLeaf\<close> and the depth only, or
  trees whose sizes and centres are dyadic numbers that single precision holds
  exactly; nothing is stated about the exact position of the footprints.
\<close>

function BuildTree ::
  "float \<Rightarrow> int \<Rightarrow> float \<Rightarrow> float \<Rightarrow> float \<Rightarrow> int \<Rightarrow> int \<Rightarrow> TerrainNode \<times> int" where
  "BuildTree minNodeSize maxLODLevels x z size0 depth count =
     (let minY = 0; maxY = 100;
          yMid = (minY + maxY) * 0.5;
          yExt = (maxY - minY) * 0.5 + 10;
          d = \<lparr>X = x, Z = z, Size = size0, LODLevel = depth, MaxLOD = maxLODLevels - 1,
               Bounds = \<lparr>Center = \<lparr>x3 = x, y3 = yMid, z3 = z\<rparr>,
                         Extents = \<lparr>x3 = size0 * 0.5, y3 = yExt, z3 = size0 * 0.5\<rparr>\<rparr>,
               MinY = minY, MaxY = maxY, IsLeaf = True, IsVisible = False,
               ObjectCBIndex = 0\<rparr>;
          count0 = count + 1;
          canSplit = (size0 > minNodeSize \<and> depth < maxLODLevels - 1)
      in if \<not> canSplit then (TerrainNode (d\<lparr>IsLeaf := True\<rparr>) [], count0)
         else
           (let half = size0 * 0.5; quarter = size0 * 0.25;
                (c0, count1) = BuildTree minNodeSize maxLODLevels (x - quarter) (z + quarter) half (depth + 1) count0;
                (c1, count2) = BuildTree minNodeSize maxLODLevels (x + quarter) (z + quarter) half (depth + 1) count1;
                (c2, count3) = BuildTree minNodeSize maxLODLevels (x - quarter) (z - quarter) half (depth + 1) count2;
                (c3, count4) = BuildTree minNodeSize maxLODLevels (x + quarter) (z - quarter) half (depth + 1) count3
            in (TerrainNode (d\<lparr>IsLeaf := False\<rparr>) [c0, c1, c2, c3], count4)))"
  by pat_completeness auto
termination
  by (relation "measure (\<lambda>(minNodeSize, maxLODLevels, x, z, size0, depth, count).
                   nat (maxLODLevels - 1 - depth))") auto

declare BuildTree.simps [simp del]

text \<open>
  \<open>QuadTree::Initialize\<close>. \<open>mLODDistances.resize((size_t)maxLODLevels)\<close> throws for
  a negative \<open>maxLODLevels\<close> (the cast gives a size beyond \<open>max_size\<close>): the result
  is \<open>None\<close> then. \<open>1 << shift\<close> is the shift of a 32-bit \<open>int\<close>: \<open>2 ^ shift\<close> up to
  \<open>shift = 30\<close>, the sign bit at 31; from 32 on C++ leaves it undefined, and the
  model has 0 there. The table plays no part in the shape of the tree.
\<close>

definition Initialize :: "QuadTree \<Rightarrow> float \<Rightarrow> float \<Rightarrow> int \<Rightarrow> QuadTree option" where
  "Initialize q terrainSize minNodeSize maxLODLevels =
     (let q1 = q\<lparr>mTerrainSize := terrainSize, mMinNodeSize := minNodeSize,
                 mMaxLODLevels := maxLODLevels, mVisibleNodeCount := 0,
                 mTotalNodeCount := 0, mNextObjectCBIndex := 0\<rparr>
      in if mLODDistances q1 = [] \<and> maxLODLevels < 0 then None
         else
           (let q2 = (if mLODDistances q1 = []
                      then q1\<lparr>mLODDistances :=
                              map (\<lambda>i. let shift = maxLODLevels - int i - 1;
                                            base = minNodeSize * real_of_int (sint (push_bit (nat shift) (1 :: 32 word)))
                                        in base * 2)
                                  [0 ..< nat maxLODLevels]\<rparr>
                      else q1);
                (rootNode, count) = BuildTree (mMinNodeSize q2) (mMaxLODLevels q2) 0 0 (mTerrainSize q2) 0 (mTotalNodeCount q2)
            in Some (q2\<lparr>mRoot := Some rootNode, mTotalNodeCount := count\<rparr>)))"

definition CalculateLOD :: "QuadTree \<Rightarrow> NodeData \<Rightarrow> XMFLOAT3 \<Rightarrow> int" where
  "CalculateLOD q node cameraPos =
     (let cx = X node; cz = Z node; cy = (MinY node + MaxY node) * 0.5;
          dx = x3 cameraPos - cx; dy = y3 cameraPos - cy; dz = z3 cameraPos - cz;
          dist = sqrt (dx * dx + dy * dy + dz * dz)
      in case find (\<lambda>i. dist < mLODDistances q ! i) [0 ..< length (mLODDistances q)] of
           Some i \<Rightarrow> int i
         | None \<Rightarrow> mMaxLODLevels q - 1)"

definition ShouldSubdivide :: "NodeData \<Rightarrow> XMFLOAT3 \<Rightarrow> bool" where
  "ShouldSubdivide node cameraPos =
     (if IsLeaf node then False
      else (let dx = x3 cameraPos - X node; dz = z3 cameraPos - Z node;
                distXZ = sqrt (dx * dx + dz * dz)
            in distXZ < Size node * 1.5))"

text \<open>
  \<open>QuadTree::UpdateNode\<close>: the tree object is threaded (its counters
  \<open>mVisibleNodeCount\<close> and \<open>mNextObjectCBIndex\<close> are updated); the node is returned
  updated. \<open>UpdateChildren\<close> is the loop over \<open>Children\<close>.
\<close>

fun UpdateNode :: "QuadTree \<Rightarrow> XMFLOAT3 \<Rightarrow> XMFLOAT4 list \<Rightarrow> TerrainNode \<Rightarrow> TerrainNode \<times> QuadTree"
and UpdateChildren :: "QuadTree \<Rightarrow> XMFLOAT3 \<Rightarrow> XMFLOAT4 list \<Rightarrow> TerrainNode list \<Rightarrow> TerrainNode list \<times> QuadTree"
where
  "UpdateNode q cameraPos frustumPlanes (TerrainNode d cs) =
     (let d1 = d\<lparr>IsVisible := Intersects (Bounds d) frustumPlanes\<rparr>
      in if \<not> IsVisible d1 then (TerrainNode d1 cs, q)
         else
           (let d2 = d1\<lparr>LODLevel := CalculateLOD q d1 cameraPos\<rparr>;
                descend = (\<not> IsLeaf d2 \<and> ShouldSubdivide d2 cameraPos)
            in if descend
               then (let d3 = d2\<lparr>IsVisible := False\<rparr>;
                         (cs', q') = UpdateChildren q cameraPos frustumPlanes cs
                     in (TerrainNode d3 cs', q'))
               else (TerrainNode (d2\<lparr>ObjectCBIndex := mNextObjectCBIndex q\<rparr>) cs,
                     q\<lparr>mNextObjectCBIndex := mNextObjectCBIndex q + 1,
                       mVisibleNodeCount := mVisibleNodeCount q + 1\<rparr>)))"
| "UpdateChildren q cameraPos frustumPlanes [] = ([], q)"
| "UpdateChildren q cameraPos frustumPlanes (c # cs) =
     (let (c', q1) = UpdateNode q cameraPos frustumPlanes c;
          (cs', q2) = UpdateChildren q1 cameraPos frustumPlanes cs
      in (c' # cs', q2))"

definition Update :: "QuadTree \<Rightarrow> XMFLOAT3 \<Rightarrow> XMFLOAT4 list \<Rightarrow> QuadTree" where
  "Update q cameraPos frustumPlanes =
     (let q1 = q\<lparr>mVisibleNodeCount := 0, mNextObjectCBIndex := 0\<rparr>
      in case mRoot q1 of
           None \<Rightarrow> q1
         | Some rootNode \<Rightarrow>
             (let (rootNode1, q2) = UpdateNode q1 cameraPos frustumPlanes rootNode
              in q2\<lparr>mRoot := Some rootNode1\<rparr>))"

text \<open>
  \<open>QuadTree::CollectVisibleNodes\<close>: \<open>outNodes\<close> is threaded; a pushed pointer is
  modelled by the node it points to.
\<close>

fun CollectVisibleNodes :: "TerrainNode \<Rightarrow> TerrainNode list \<Rightarrow> TerrainNode list"
and CollectChildren :: "TerrainNode list \<Rightarrow> TerrainNode list \<Rightarrow> TerrainNode list"
where
  "CollectVisibleNodes (TerrainNode d cs) outNodes =
     (if IsVisible d then outNodes @ [TerrainNode d cs]
      else if IsLeaf d then outNodes
      else CollectChildren cs outNodes)"
| "CollectChildren [] outNodes = outNodes"
| "CollectChildren (c # cs) outNodes = CollectChildren cs (CollectVisibleNodes c outNodes)"

definition GetVisibleNodes :: "QuadTree \<Rightarrow> TerrainNode list" where
  "GetVisibleNodes q = (case mRoot q of None \<Rightarrow> [] | Some rootNode \<Rightarrow> CollectVisibleNodes rootNode [])"

definition GetVisibleNodeCount :: "QuadTree \<Rightarrow> int" where
  "GetVisibleNodeCount q = mVisibleNodeCount q"

definition SetHeightRange :: "QuadTree \<Rightarrow> float \<Rightarrow> float \<Rightarrow> float \<Rightarrow> float \<Rightarrow> float \<Rightarrow> QuadTree" where
  "SetHeightRange q x z size0 minY maxY =
     (case mRoot q of
        None \<Rightarrow> q
      | Some (TerrainNode d cs) \<Rightarrow>
          q\<lparr>mRoot := Some (TerrainNode
               (d\<lparr>MinY := minY, MaxY := maxY,
                  Bounds := (Bounds d)\<lparr>Center := (Center (Bounds d))\<lparr>y3 := (minY + maxY) * 0.5\<rparr>,
                                       Extents := (Extents (Bounds d))\<lparr>y3 := (maxY - minY) * 0.5 + 10\<rparr>\<rparr>\<rparr>)
               cs)\<rparr>)"

section \<open>Terrain.h and Terrain.cpp\<close>

text \<open>
  \<open>class Terrain\<close>, the members of the heightfield (the device, geometry and texture
  members play no part here). \<open>mTerrainSizeT\<close> is the member \<open>mTerrainSize\<close> of
  \<open>Terrain\<close>, renamed because \<open>QuadTree\<close> has a member of the same name.
\<close>

record Terrain =
  mTerrainSizeT :: float
  mMinHeight :: float
  mMaxHeight :: float
  mHeightmapWidth :: UINT
  mHeightmapHeight :: UINT
  mHeightmap :: "float list"
  mPermutation :: "int list"

type_synonym byte = "8 word"

text \<open>
  Modelled from the C++ library, which is not part of the repository:
  \<open>std::istream::read(buf, n)\<close> on a stream positioned at the start of a file with
  the bytes \<open>file\<close> extracts \<open>min n (length file)\<close> bytes into \<open>buf\<close> and stops at the
  end of the file; the rest of \<open>buf\<close> keeps its contents, which are zero for the
  freshly constructed \<open>std::vector\<close> that \<open>LoadHeightmap\<close> reads into. The result
  is the buffer after the call and the number of bytes extracted.
\<close>

definition ifstream_read :: "byte list \<Rightarrow> nat \<Rightarrow> byte list \<times> nat" where
  "ifstream_read file n = (take n file @ replicate (n - length file) 0, min n (length file))"

text \<open>
  \<open>Terrain::LoadHeightmap\<close>. The file is \<open>None\<close> when it cannot be opened, else its
  bytes. A \<open>std::uint16_t\<close> is read from two bytes of the buffer, low byte first
  (the byte order of the machines the program is written for). The result is the
  returned \<open>bool\<close> and the object.
\<close>

definition LoadHeightmap :: "Terrain \<Rightarrow> byte list option \<Rightarrow> UINT \<Rightarrow> UINT \<Rightarrow> bool \<Rightarrow> bool \<times> Terrain" where
  "LoadHeightmap t file width height is16Bit =
     (case file of
        None \<Rightarrow> (False, t)
      | Some bytes \<Rightarrow>
          (let count = unat width * unat height;
               t1 = t\<lparr>mHeightmapWidth := width, mHeightmapHeight := height,
                      mHeightmap := replicate count 0\<rparr>
           in if is16Bit
              then (let raw = fst (ifstream_read bytes (count * 2))
                    in (True, t1\<lparr>mHeightmap :=
                          map (\<lambda>i. real (unat (raw ! (2 * i)) + 256 * unat (raw ! (2 * i + 1))) / 65535)
                              [0 ..< count]\<rparr>))
              else (let raw = fst (ifstream_read bytes count)
                    in (True, t1\<lparr>mHeightmap :=
                          map (\<lambda>i. real (unat (raw ! i)) / 255) [0 ..< count]\<rparr>))))"

definition Fade :: "float \<Rightarrow> float" where
  "Fade t = t * t * t * (t * (t * 6 - 15) + 10)"

definition Lerp :: "float \<Rightarrow> float \<Rightarrow> float \<Rightarrow> float" where
  "Lerp a b t = a + t * (b - a)"

definition Grad :: "int \<Rightarrow> float \<Rightarrow> float \<Rightarrow> float" where
  "Grad hash x z =
     (let h = hash AND 3;
          u = (if h < 2 then x else z);
          v = (if h < 2 then z else x);
          a = (if h AND 1 \<noteq> 0 then - u else u);
          b = (if h AND 2 \<noteq> 0 then - v else v)
      in a + b)"

text \<open>
  \<open>Terrain::PerlinNoise\<close>. \<open>(int)std::floor(x)\<close> is the integer \<open>\<lfloor>x\<rfloor>\<close> (the cast is
  exact below \<open>2^31\<close> in magnitude), and \<open>& 255\<close> on a two's complement \<open>int\<close> is
  \<open>AND 255\<close> on the integer. The table \<open>mPermutation\<close> has 512 entries in 0..255,
  so every index below is in range.
\<close>

definition PerlinNoise :: "Terrain \<Rightarrow> float \<Rightarrow> float \<Rightarrow> float" where
  "PerlinNoise t x z =
     (let Xi = \<lfloor>x\<rfloor> AND 255;
          Zi = \<lfloor>z\<rfloor> AND 255;
          xf = x - of_int \<lfloor>x\<rfloor>;
          zf = z - of_int \<lfloor>z\<rfloor>;
          u = Fade xf;
          v = Fade zf;
          A = mPermutation t ! nat Xi + Zi;
          B = mPermutation t ! nat (Xi + 1) + Zi;
          g00 = Grad (mPermutation t ! nat A) xf zf;
          g10 = Grad (mPermutation t ! nat B) (xf - 1) zf;
          g01 = Grad (mPermutation t ! nat (A + 1)) xf (zf - 1);
          g11 = Grad (mPermutation t ! nat (B + 1)) (xf - 1) (zf - 1);
          ix0 = Lerp g00 g10 u;
          ix1 = Lerp g01 g11 u
      in Lerp ix0 ix1 v)"

text \<open>
  \<open>Terrain::GenerateProceduralHeightmap\<close>. \<open>OctaveLoop\<close> is the loop over the
  octaves, on the state \<open>(sum, amp, freq, ampSum)\<close>; \<open>CellValue\<close> is the body of the
  loops over the grid up to the value \<open>v\<close>; the loops over \<open>z\<close> and \<open>x\<close> are folds
  over the indices, on the state \<open>(mHeightmap, hi, lo)\<close>.
\<close>

function OctaveLoop ::
  "Terrain \<Rightarrow> float \<Rightarrow> float \<Rightarrow> int \<Rightarrow> int \<Rightarrow> float \<times> float \<times> float \<times> float
     \<Rightarrow> float \<times> float \<times> float \<times> float" where
  "OctaveLoop t nx nz octaves oct (sm, amp, freq, ampSum) =
     (if oct < octaves
      then OctaveLoop t nx nz octaves (oct + 1)
             (sm + PerlinNoise t (nx * freq) (nz * freq) * amp, amp * 0.5, freq * 2, ampSum + amp)
      else (sm, amp, freq, ampSum))"
  by pat_completeness auto
termination
  by (relation "measure (\<lambda>(t, nx, nz, octaves, oct, st). nat (octaves - oct))") auto

declare OctaveLoop.simps [simp del]

definition CellValue :: "Terrain \<Rightarrow> UINT \<Rightarrow> UINT \<Rightarrow> float \<Rightarrow> int \<Rightarrow> nat \<Rightarrow> nat \<Rightarrow> float" where
  "CellValue t width height frequency octaves x z =
     (let nx = real x / real (unat width);
          nz = real z / real (unat height);
          (sm, amp, freq, ampSum) = OctaveLoop t nx nz octaves 0 (0, 1, frequency, 0)
      in (sm / ampSum + 1) * 0.5)"

definition GenerateProceduralHeightmap :: "Terrain \<Rightarrow> UINT \<Rightarrow> UINT \<Rightarrow> float \<Rightarrow> int \<Rightarrow> Terrain" where
  "GenerateProceduralHeightmap t width height frequency octaves =
     (let t1 = t\<lparr>mHeightmapWidth := width, mHeightmapHeight := height,
                 mHeightmap := replicate (unat width * unat height) 0\<rparr>;
          (hm, hi, lo) =
             fold (\<lambda>z. fold (\<lambda>x (hm, hi, lo).
                                let v = CellValue t1 width height frequency octaves x z
                                in (hm[z * unat width + x := v], max hi v, min lo v))
                            [0 ..< unat width])
                  [0 ..< unat height] (mHeightmap t1, 0, 1);
          rng = hi - lo
      in t1\<lparr>mHeightmap := (if rng > 0.001 then map (\<lambda>h. (h - lo) / rng) hm else hm)\<rparr>)"

text \<open>
  \<open>Terrain::SampleHeight\<close>. \<open>SampleCell\<close> is the clamped cell; \<open>(int)mHeightmapWidth\<close>
  is the 32-bit value read as signed. The read of \<open>mHeightmap\<close> is \<open>None\<close> when the
  index is not below the size of the vector (the source would read outside it).
\<close>

definition SampleCell :: "Terrain \<Rightarrow> int \<Rightarrow> int \<Rightarrow> int \<times> int" where
  "SampleCell t x z =
     (let maxX = sint (mHeightmapWidth t) - 1;
          maxZ = sint (mHeightmapHeight t) - 1
      in (max 0 (min x maxX), max 0 (min z maxZ)))"

definition SampleHeight :: "Terrain \<Rightarrow> int \<Rightarrow> int \<Rightarrow> float option" where
  "SampleHeight t x z =
     (let (cx, cz) = SampleCell t x z;
          i = nat cz * unat (mHeightmapWidth t) + nat cx
      in if i < length (mHeightmap t) then Some (mHeightmap t ! i) else None)"

text \<open>\<open>Terrain::GetHeight\<close>; \<open>None\<close> when one of the four samples is read out of range.\<close>

definition GetHeight :: "Terrain \<Rightarrow> float \<Rightarrow> float \<Rightarrow> float option" where
  "GetHeight t x z =
     (if mHeightmap t = [] then Some 0
      else
        (let u = (x / mTerrainSizeT t + 0.5) * real (unat (mHeightmapWidth t));
             v = (z / mTerrainSizeT t + 0.5) * real (unat (mHeightmapHeight t));
             x0 = \<lfloor>u\<rfloor>;
             z0 = \<lfloor>v\<rfloor>;
             fx = u - of_int x0;
             fz = v - of_int z0
         in case (SampleHeight t x0 z0, SampleHeight t (x0 + 1) z0,
                  SampleHeight t x0 (z0 + 1), SampleHeight t (x0 + 1) (z0 + 1)) of
              (Some h00, Some h10, Some h01, Some h11) \<Rightarrow>
                (let hx0 = h00 + (h10 - h00) * fx;
                     hx1 = h01 + (h11 - h01) * fx;
                     h = hx0 + (hx1 - hx0) * fz
                 in Some (mMinHeight t + h * (mMaxHeight t - mMinHeight t)))
            | _ \<Rightarrow> None))"

text \<open>
  \<open>Terrain::GetNormal\<close>. \<open>XMVector3Normalize\<close> belongs to DirectXMath, not to the
  repository: it is a parameter.
\<close>

definition GetNormal :: "(XMFLOAT3 \<Rightarrow> XMFLOAT3) \<Rightarrow> Terrain \<Rightarrow> float \<Rightarrow> float \<Rightarrow> XMFLOAT3 option" where
  "GetNormal XMVector3Normalize t x z =
     (let step = mTerrainSizeT t / real (unat (mHeightmapWidth t))
      in case (GetHeight t (x - step) z, GetHeight t (x + step) z,
               GetHeight t x (z - step), GetHeight t x (z + step)) of
           (Some hL, Some hR, Some hD, Some hU) \<Rightarrow>
             Some (XMVector3Normalize \<lparr>x3 = hL - hR, y3 = 2 * step, z3 = hD - hU\<rparr>)
         | _ \<Rightarrow> None)"

section \<open>Notions used in the statements\<close>

text \<open>
  The draw targets of one \<open>Update\<close>: the nodes at which the traversal of
  \<open>UpdateNode\<close> stops with the node selected (box not culled, and either a leaf or
  not subdivided), in the order of the traversal. The decision reads only members
  that \<open>Update\<close> never writes (\<open>Bounds\<close>, \<open>IsLeaf\<close>, \<open>X\<close>, \<open>Z\<close>, \<open>Size\<close>).
\<close>

fun DrawTargets :: "XMFLOAT3 \<Rightarrow> XMFLOAT4 list \<Rightarrow> TerrainNode \<Rightarrow> TerrainNode list" where
  "DrawTargets cameraPos frustumPlanes (TerrainNode d cs) =
     (if \<not> Intersects (Bounds d) frustumPlanes then []
      else if \<not> IsLeaf d \<and> ShouldSubdivide d cameraPos
           then concat (map (DrawTargets cameraPos frustumPlanes) cs)
           else [TerrainNode d cs])"

text \<open>The effect of \<open>k\<close> executions of \<open>node->ObjectCBIndex = mNextObjectCBIndex++; ++mVisibleNodeCount\<close> on the counters.\<close>

definition bump :: "QuadTree \<Rightarrow> nat \<Rightarrow> QuadTree" where
  "bump q k = q\<lparr>mNextObjectCBIndex := mNextObjectCBIndex q + of_nat k,
                mVisibleNodeCount := mVisibleNodeCount q + int k\<rparr>"

abbreviation idx :: "TerrainNode \<Rightarrow> UINT" where
  "idx n \<equiv> ObjectCBIndex (Fields n)"

subsection \<open>Concrete trees and frames\<close>

text \<open>
  A two-level tree (footprint 128, minimum node size 64, 2 levels), a camera above
  its centre, a frustum (here an axis-aligned box of six inward-facing planes) that
  contains the whole terrain, and one that lies beside it.
\<close>

definition planes_around :: "XMFLOAT4 list" where
  "planes_around =
     [\<lparr>x4 = 1, y4 = 0, z4 = 0, w4 = 1000\<rparr>, \<lparr>x4 = -1, y4 = 0, z4 = 0, w4 = 1000\<rparr>,
      \<lparr>x4 = 0, y4 = 1, z4 = 0, w4 = 1000\<rparr>, \<lparr>x4 = 0, y4 = -1, z4 = 0, w4 = 1000\<rparr>,
      \<lparr>x4 = 0, y4 = 0, z4 = 1, w4 = 1000\<rparr>, \<lparr>x4 = 0, y4 = 0, z4 = -1, w4 = 1000\<rparr>]"

definition planes_aside :: "XMFLOAT4 list" where
  "planes_aside =
     [\<lparr>x4 = 1, y4 = 0, z4 = 0, w4 = -1000\<rparr>, \<lparr>x4 = -1, y4 = 0, z4 = 0, w4 = 3000\<rparr>,
      \<lparr>x4 = 0, y4 = 1, z4 = 0, w4 = 1000\<rparr>, \<lparr>x4 = 0, y4 = -1, z4 = 0, w4 = 1000\<rparr>,
      \<lparr>x4 = 0, y4 = 0, z4 = 1, w4 = 1000\<rparr>, \<lparr>x4 = 0, y4 = 0, z4 = -1, w4 = 1000\<rparr>]"

definition camera_above :: XMFLOAT3 where
  "camera_above = \<lparr>x3 = 0, y3 = 50, z3 = 0\<rparr>"

definition leaf_at :: "float \<Rightarrow> float \<Rightarrow> bool \<Rightarrow> int \<Rightarrow> UINT \<Rightarrow> TerrainNode" where
  "leaf_at x z v l i = TerrainNode \<lparr>X = x, Z = z, Size = 64, LODLevel = l, MaxLOD = 1,
               Bounds = \<lparr>Center = \<lparr>x3 = x, y3 = 50, z3 = z\<rparr>,
                         Extents = \<lparr>x3 = 32, y3 = 60, z3 = 32\<rparr>\<rparr>,
               MinY = 0, MaxY = 100, IsLeaf = True, IsVisible = v,
               ObjectCBIndex = i\<rparr> []"

definition root_over :: "bool \<Rightarrow> int \<Rightarrow> TerrainNode list \<Rightarrow> TerrainNode" where
  "root_over v l cs = TerrainNode \<lparr>X = 0, Z = 0, Size = 128, LODLevel = l, MaxLOD = 1,
               Bounds = \<lparr>Center = \<lparr>x3 = 0, y3 = 50, z3 = 0\<rparr>,
                         Extents = \<lparr>x3 = 64, y3 = 60, z3 = 64\<rparr>\<rparr>,
               MinY = 0, MaxY = 100, IsLeaf = False, IsVisible = v,
               ObjectCBIndex = 0\<rparr> cs"

definition tree0 :: QuadTree where
  "tree0 = \<lparr>mRoot = Some (root_over False 0 [leaf_at (-32) 32 False 1 0, leaf_at 32 32 False 1 0, leaf_at (-32) (-32) False 1 0, leaf_at 32 (-32) False 1 0]),
      mTerrainSize = 128, mMinNodeSize = 64, mMaxLODLevels = 2,
      mLODDistances = [256, 128], mVisibleNodeCount = 0, mTotalNodeCount = 5,
      mNextObjectCBIndex = 0\<rparr>"

definition tree1 :: QuadTree where
  "tree1 = \<lparr>mRoot = Some (root_over False 0 [leaf_at (-32) 32 True 0 0, leaf_at 32 32 True 0 1, leaf_at (-32) (-32) True 0 2, leaf_at 32 (-32) True 0 3]),
      mTerrainSize = 128, mMinNodeSize = 64, mMaxLODLevels = 2,
      mLODDistances = [256, 128], mVisibleNodeCount = 4, mTotalNodeCount = 5,
      mNextObjectCBIndex = 4\<rparr>"

text \<open>
  The distance that \<open>CalculateLOD\<close> compares with the table: from the camera to
  the node's centre \<open>(X, (MinY + MaxY) / 2, Z)\<close>.
\<close>

definition CameraDistance :: "NodeData \<Rightarrow> XMFLOAT3 \<Rightarrow> float" where
  "CameraDistance node cameraPos =
     (let cx = X node; cz = Z node; cy = (MinY node + MaxY node) * 0.5;
          dx = x3 cameraPos - cx; dy = y3 cameraPos - cy; dz = z3 cameraPos - cz
      in sqrt (dx * dx + dy * dy + dz * dz))"

text \<open>
  A node as \<open>BuildTree\<close> makes it for a tree of 2 levels (so \<open>MaxLOD = 1\<close>), with
  the members that \<open>Update\<close> writes as parameters; a two-level tree of footprint
  4000 built after \<open>SetLODDistances({1, 2, 1000})\<close>, a table longer than the number
  of levels; the application's table of five thresholds for five levels.
\<close>

definition built_node ::
  "float \<Rightarrow> float \<Rightarrow> float \<Rightarrow> bool \<Rightarrow> bool \<Rightarrow> int \<Rightarrow> UINT \<Rightarrow> TerrainNode list \<Rightarrow> TerrainNode" where
  "built_node x z s leaf v l i cs =
     TerrainNode \<lparr>X = x, Z = z, Size = s, LODLevel = l, MaxLOD = 1,
               Bounds = \<lparr>Center = \<lparr>x3 = x, y3 = 50, z3 = z\<rparr>,
                         Extents = \<lparr>x3 = s / 2, y3 = 60, z3 = s / 2\<rparr>\<rparr>,
               MinY = 0, MaxY = 100, IsLeaf = leaf, IsVisible = v,
               ObjectCBIndex = i\<rparr> cs"

definition wide0 :: QuadTree where
  "wide0 = \<lparr>mRoot = Some (built_node 0 0 4000 False False 0 0
                [built_node (-1000) 1000 2000 True False 1 0 [], built_node 1000 1000 2000 True False 1 0 [],
                 built_node (-1000) (-1000) 2000 True False 1 0 [], built_node 1000 (-1000) 2000 True False 1 0 []]),
      mTerrainSize = 4000, mMinNodeSize = 64, mMaxLODLevels = 2,
      mLODDistances = [1, 2, 1000], mVisibleNodeCount = 0, mTotalNodeCount = 5,
      mNextObjectCBIndex = 0\<rparr>"

definition camera_side :: XMFLOAT3 where
  "camera_side = \<lparr>x3 = 1000, y3 = 50, z3 = 1100\<rparr>"

definition planes_far :: "XMFLOAT4 list" where
  "planes_far =
     [\<lparr>x4 = 1, y4 = 0, z4 = 0, w4 = 10000\<rparr>, \<lparr>x4 = -1, y4 = 0, z4 = 0, w4 = 10000\<rparr>,
      \<lparr>x4 = 0, y4 = 1, z4 = 0, w4 = 10000\<rparr>, \<lparr>x4 = 0, y4 = -1, z4 = 0, w4 = 10000\<rparr>,
      \<lparr>x4 = 0, y4 = 0, z4 = 1, w4 = 10000\<rparr>, \<lparr>x4 = 0, y4 = 0, z4 = -1, w4 = 10000\<rparr>]"

definition app_tree :: QuadTree where
  "app_tree = \<lparr>mRoot = None, mTerrainSize = 512, mMinNodeSize = 64, mMaxLODLevels = 5,
      mLODDistances = [100, 200, 400, 600, 1000], mVisibleNodeCount = 0, mTotalNodeCount = 0,
      mNextObjectCBIndex = 0\<rparr>"

text \<open>
  The points of a bounding box, and the signed distance of a point from a plane
  \<open>(nx, ny, nz, d)\<close> (inside is positive), up to the length of the normal.
\<close>

definition InBox :: "BoundingBoxAABB \<Rightarrow> XMFLOAT3 \<Rightarrow> bool" where
  "InBox b p \<longleftrightarrow>
     \<bar>x3 p - x3 (Center b)\<bar> \<le> x3 (Extents b) \<and>
     \<bar>y3 p - y3 (Center b)\<bar> \<le> y3 (Extents b) \<and>
     \<bar>z3 p - z3 (Center b)\<bar> \<le> z3 (Extents b)"

definition SignedDistance :: "XMFLOAT4 \<Rightarrow> XMFLOAT3 \<Rightarrow> float" where
  "SignedDistance pl p = x4 pl * x3 p + y4 pl * y3 p + z4 pl * z3 p + w4 pl"

subsection \<open>The shape of a built tree\<close>



subsection \<open>Heightfields\<close>

text \<open>
  A terrain as the constructor leaves it (footprint 512, heights 0 to 150, no
  grid), with the identity as the shuffled permutation; the invariant that ties
  the vector of samples to the stored dimensions, which every loader establishes;
  a grid of 2 columns and 3 rows.
\<close>

definition terrain0 :: Terrain where
  "terrain0 = \<lparr>mTerrainSizeT = 512, mMinHeight = 0, mMaxHeight = 150,
      mHeightmapWidth = 0, mHeightmapHeight = 0, mHeightmap = [],
      mPermutation = map int [0 ..< 256] @ map int [0 ..< 256]\<rparr>"

definition heightmap_sized :: "Terrain \<Rightarrow> bool" where
  "heightmap_sized t \<longleftrightarrow>
     length (mHeightmap t) = unat (mHeightmapWidth t) * unat (mHeightmapHeight t)"

definition grid23 :: Terrain where
  "grid23 = terrain0\<lparr>mHeightmapWidth := 2, mHeightmapHeight := 3,
      mHeightmap := [0, 1/10, 2/10, 3/10, 4/10, 5/10]\<rparr>"

text \<open>
  The grid of \<open>GenerateProceduralHeightmap\<close> before the rescale: the value of every
  cell, in row-major order.
\<close>

definition RawGrid :: "Terrain \<Rightarrow> UINT \<Rightarrow> UINT \<Rightarrow> float \<Rightarrow> int \<Rightarrow> float list" where
  "RawGrid t width height frequency octaves =
     map (\<lambda>i. CellValue t width height frequency octaves (i mod unat width) (i div unat width))
         [0 ..< unat width * unat height]"

section \<open>Properties of the quadtree\<close>

subsection \<open>Unfolding \<open>BuildTree\<close>\<close>

lemma BuildTree_leaf:
  "\<not> (size0 > minNodeSize \<and> depth < maxLODLevels - 1) \<Longrightarrow>
   BuildTree minNodeSize maxLODLevels x z size0 depth count =
     (TerrainNode \<lparr>X = x, Z = z, Size = size0, LODLevel = depth, MaxLOD = maxLODLevels - 1,
               Bounds = \<lparr>Center = \<lparr>x3 = x, y3 = 50, z3 = z\<rparr>,
                         Extents = \<lparr>x3 = size0 / 2, y3 = 60, z3 = size0 / 2\<rparr>\<rparr>,
               MinY = 0, MaxY = 100, IsLeaf = True, IsVisible = False,
               ObjectCBIndex = 0\<rparr> [], count + 1)"
  by (subst BuildTree.simps) (simp add: Let_def)

lemma BuildTree_split:
  "size0 > minNodeSize \<Longrightarrow> depth < maxLODLevels - 1 \<Longrightarrow>
   BuildTree minNodeSize maxLODLevels x z size0 depth count =
     (case BuildTree minNodeSize maxLODLevels (x - size0 / 4) (z + size0 / 4) (size0 / 2) (depth + 1) (count + 1) of (c0, count1) \<Rightarrow>
      case BuildTree minNodeSize maxLODLevels (x + size0 / 4) (z + size0 / 4) (size0 / 2) (depth + 1) count1 of (c1, count2) \<Rightarrow>
      case BuildTree minNodeSize maxLODLevels (x - size0 / 4) (z - size0 / 4) (size0 / 2) (depth + 1) count2 of (c2, count3) \<Rightarrow>
      case BuildTree minNodeSize maxLODLevels (x + size0 / 4) (z - size0 / 4) (size0 / 2) (depth + 1) count3 of (c3, count4) \<Rightarrow>
     (TerrainNode \<lparr>X = x, Z = z, Size = size0, LODLevel = depth, MaxLOD = maxLODLevels - 1,
               Bounds = \<lparr>Center = \<lparr>x3 = x, y3 = 50, z3 = z\<rparr>,
                         Extents = \<lparr>x3 = size0 / 2, y3 = 60, z3 = size0 / 2\<rparr>\<rparr>,
               MinY = 0, MaxY = 100, IsLeaf = False, IsVisible = False,
               ObjectCBIndex = 0\<rparr> [c0, c1, c2, c3], count4))"
  by (subst BuildTree.simps) (simp add: Let_def split: prod.splits)

subsection \<open>What \<open>UpdateNode\<close> reads and writes\<close>

lemma CalculateLOD_upd [simp]:
  "CalculateLOD q (d\<lparr>IsVisible := v\<rparr>) c = CalculateLOD q d c"
  "CalculateLOD q (d\<lparr>LODLevel := l\<rparr>) c = CalculateLOD q d c"
  "CalculateLOD q (d\<lparr>ObjectCBIndex := i\<rparr>) c = CalculateLOD q d c"
  by (simp_all add: CalculateLOD_def)

lemma CalculateLOD_q [simp]:
  "CalculateLOD (q\<lparr>mNextObjectCBIndex := a\<rparr>) d c = CalculateLOD q d c"
  "CalculateLOD (q\<lparr>mVisibleNodeCount := b\<rparr>) d c = CalculateLOD q d c"
  "CalculateLOD (q\<lparr>mRoot := r\<rparr>) d c = CalculateLOD q d c"
  by (simp_all add: CalculateLOD_def Let_def split: option.splits)

lemma ShouldSubdivide_upd [simp]:
  "ShouldSubdivide (d\<lparr>IsVisible := v\<rparr>) c = ShouldSubdivide d c"
  "ShouldSubdivide (d\<lparr>LODLevel := l\<rparr>) c = ShouldSubdivide d c"
  "ShouldSubdivide (d\<lparr>ObjectCBIndex := i\<rparr>) c = ShouldSubdivide d c"
  by (simp_all add: ShouldSubdivide_def)

lemma bump_0 [simp]: "bump q 0 = q"
  by (simp add: bump_def)

lemma bump_bump [simp]: "bump (bump q a) b = bump q (a + b)"
  by (simp add: bump_def add.assoc)

lemma bump_fields [simp]:
  "mNextObjectCBIndex (bump q k) = mNextObjectCBIndex q + of_nat k"
  "mVisibleNodeCount (bump q k) = mVisibleNodeCount q + int k"
  "mLODDistances (bump q k) = mLODDistances q"
  "mMaxLODLevels (bump q k) = mMaxLODLevels q"
  "mRoot (bump q k) = mRoot q"
  by (simp_all add: bump_def)

lemma map_upt_add:
  "map f [0 ..< a + b] = map f [0 ..< a] @ map (\<lambda>i. f (a + i)) [0 ..< b]"
proof -
  have "[0 ..< a + b] = [0 ..< a] @ map (\<lambda>i. a + i) [0 ..< b]"
    by (induction b) simp_all
  then show ?thesis by (simp add: comp_def)
qed

lemma UpdateChildren_effect:
  assumes "\<And>c q. c \<in> set cs \<Longrightarrow>
             snd (UpdateNode q cam pl c) = bump q (length (DrawTargets cam pl c)) \<and>
             map idx (DrawTargets cam pl (fst (UpdateNode q cam pl c))) =
               map (\<lambda>i. mNextObjectCBIndex q + of_nat i) [0 ..< length (DrawTargets cam pl c)]"
  shows "snd (UpdateChildren q cam pl cs) = bump q (length (concat (map (DrawTargets cam pl) cs))) \<and>
         map idx (concat (map (DrawTargets cam pl) (fst (UpdateChildren q cam pl cs)))) =
           map (\<lambda>i. mNextObjectCBIndex q + of_nat i) [0 ..< length (concat (map (DrawTargets cam pl) cs))]"
  using assms
proof (induction cs arbitrary: q)
  case Nil
  then show ?case by simp
next
  case (Cons c cs)
  obtain c' q1 where c: "UpdateNode q cam pl c = (c', q1)" by (cases "UpdateNode q cam pl c")
  obtain cs' q2 where cs: "UpdateChildren q1 cam pl cs = (cs', q2)" by (cases "UpdateChildren q1 cam pl cs")
  let ?k1 = "length (DrawTargets cam pl c)"
  let ?k2 = "length (concat (map (DrawTargets cam pl) cs))"
  from Cons.prems [of c q] c
  have q1: "q1 = bump q ?k1"
    and i1: "map idx (DrawTargets cam pl c') = map (\<lambda>i. mNextObjectCBIndex q + of_nat i) [0 ..< ?k1]"
    by simp_all
  from Cons.IH [of q1] Cons.prems cs
  have q2: "q2 = bump q1 ?k2"
    and i2: "map idx (concat (map (DrawTargets cam pl) cs')) = map (\<lambda>i. mNextObjectCBIndex q1 + of_nat i) [0 ..< ?k2]"
    by simp_all
  have len: "length (concat (map (DrawTargets cam pl) (c # cs))) = ?k1 + ?k2"
    by simp
  have "snd (UpdateChildren q cam pl (c # cs)) = bump q (?k1 + ?k2)"
    by (simp add: c cs) (simp add: q2 q1)
  moreover have "map idx (concat (map (DrawTargets cam pl) (fst (UpdateChildren q cam pl (c # cs))))) =
     map (\<lambda>i. mNextObjectCBIndex q + of_nat i) [0 ..< ?k1] @ map (\<lambda>i. mNextObjectCBIndex q + of_nat (?k1 + i)) [0 ..< ?k2]"
    by (simp add: c cs i1 i2) (simp add: q1 add.assoc)
  ultimately show ?case
    unfolding len map_upt_add [of _ ?k1 ?k2] by simp
qed

lemma UpdateNode_effect:
  "snd (UpdateNode q cam pl n) = bump q (length (DrawTargets cam pl n)) \<and>
   map idx (DrawTargets cam pl (fst (UpdateNode q cam pl n))) =
     map (\<lambda>i. mNextObjectCBIndex q + of_nat i) [0 ..< length (DrawTargets cam pl n)]"
proof (induction n arbitrary: q)
  case (TerrainNode d cs)
  note ch = UpdateChildren_effect [where cs = cs and cam = cam and pl = pl and q = q, OF TerrainNode.IH]
  show ?case
  proof (cases "Intersects (Bounds d) pl")
    case False
    then show ?thesis by simp
  next
    case True
    show ?thesis
    proof (cases "\<not> IsLeaf d \<and> ShouldSubdivide d cam")
      case True
      obtain cs' q' where cs: "UpdateChildren q cam pl cs = (cs', q')" by (cases "UpdateChildren q cam pl cs")
      with ch True \<open>Intersects (Bounds d) pl\<close> show ?thesis by simp
    next
      case False
      with \<open>Intersects (Bounds d) pl\<close> show ?thesis by (auto simp: Let_def bump_def)
    qed
  qed
qed

lemma UpdateChildren_idem:
  assumes "\<And>c q. c \<in> set cs \<Longrightarrow> UpdateNode q cam pl (fst (UpdateNode q cam pl c)) = UpdateNode q cam pl c"
  shows "UpdateChildren q cam pl (fst (UpdateChildren q cam pl cs)) = UpdateChildren q cam pl cs"
  using assms
proof (induction cs arbitrary: q)
  case Nil
  then show ?case by simp
next
  case (Cons c cs)
  obtain c' q1 where c: "UpdateNode q cam pl c = (c', q1)" by (cases "UpdateNode q cam pl c")
  obtain cs' q2 where cs: "UpdateChildren q1 cam pl cs = (cs', q2)" by (cases "UpdateChildren q1 cam pl cs")
  have 1: "UpdateNode q cam pl c' = (c', q1)"
    using Cons.prems [of c q] c by simp
  have 2: "UpdateChildren q1 cam pl cs' = (cs', q2)"
    using Cons.IH [of q1] Cons.prems cs by simp
  show ?case by (simp add: c cs 1 2)
qed

lemma UpdateNode_idem:
  "UpdateNode q cam pl (fst (UpdateNode q cam pl n)) = UpdateNode q cam pl n"
proof (induction n arbitrary: q)
  case (TerrainNode d cs)
  have ch: "UpdateChildren q cam pl (fst (UpdateChildren q cam pl cs)) = UpdateChildren q cam pl cs"
    by (rule UpdateChildren_idem) (rule TerrainNode.IH)
  show ?case
  proof (cases "Intersects (Bounds d) pl")
    case False
    then show ?thesis by simp
  next
    case True
    show ?thesis
    proof (cases "\<not> IsLeaf d \<and> ShouldSubdivide d cam")
      case True
      obtain cs' q' where cs: "UpdateChildren q cam pl cs = (cs', q')" by (cases "UpdateChildren q cam pl cs")
      from ch cs have "UpdateChildren q cam pl cs' = (cs', q')" by simp
      with True \<open>Intersects (Bounds d) pl\<close> cs show ?thesis by simp
    next
      case False
      with \<open>Intersects (Bounds d) pl\<close> show ?thesis by (auto simp: Let_def)
    qed
  qed
qed

lemma UpdateChildren_mRoot:
  assumes "\<And>c q. c \<in> set cs \<Longrightarrow>
            UpdateNode (q\<lparr>mRoot := r\<rparr>) cam pl c =
              (fst (UpdateNode q cam pl c), (snd (UpdateNode q cam pl c))\<lparr>mRoot := r\<rparr>)"
  shows "UpdateChildren (q\<lparr>mRoot := r\<rparr>) cam pl cs =
           (fst (UpdateChildren q cam pl cs), (snd (UpdateChildren q cam pl cs))\<lparr>mRoot := r\<rparr>)"
  using assms
proof (induction cs arbitrary: q)
  case Nil
  then show ?case by simp
next
  case (Cons c cs)
  obtain c' q1 where c: "UpdateNode q cam pl c = (c', q1)" by (cases "UpdateNode q cam pl c")
  obtain cs' q2 where cs: "UpdateChildren q1 cam pl cs = (cs', q2)" by (cases "UpdateChildren q1 cam pl cs")
  have 1: "UpdateNode (q\<lparr>mRoot := r\<rparr>) cam pl c = (c', q1\<lparr>mRoot := r\<rparr>)"
    using Cons.prems [of c q] c by simp
  have 2: "UpdateChildren (q1\<lparr>mRoot := r\<rparr>) cam pl cs = (cs', q2\<lparr>mRoot := r\<rparr>)"
    using Cons.IH [of q1] Cons.prems cs by simp
  show ?case by (simp add: c cs 1 2)
qed

lemma UpdateNode_mRoot:
  "UpdateNode (q\<lparr>mRoot := r\<rparr>) cam pl n =
     (fst (UpdateNode q cam pl n), (snd (UpdateNode q cam pl n))\<lparr>mRoot := r\<rparr>)"
proof (induction n arbitrary: q)
  case (TerrainNode d cs)
  note ch = UpdateChildren_mRoot [where cs = cs and r = r and cam = cam and pl = pl and q = q, OF TerrainNode.IH]
  show ?case
    by (cases "UpdateChildren q cam pl cs") (simp add: ch Let_def)
qed

lemma Update_Some:
  assumes "mRoot q = Some r"
  shows "Update q cam pl =
           (bump (q\<lparr>mVisibleNodeCount := 0, mNextObjectCBIndex := 0\<rparr>) (length (DrawTargets cam pl r)))
             \<lparr>mRoot := Some (fst (UpdateNode (q\<lparr>mVisibleNodeCount := 0, mNextObjectCBIndex := 0\<rparr>) cam pl r))\<rparr>"
proof -
  let ?q1 = "q\<lparr>mVisibleNodeCount := 0, mNextObjectCBIndex := 0\<rparr>"
  obtain r' q2 where u: "UpdateNode ?q1 cam pl r = (r', q2)" by (cases "UpdateNode ?q1 cam pl r")
  have "q2 = bump ?q1 (length (DrawTargets cam pl r))"
    using UpdateNode_effect [where q = ?q1 and cam = cam and pl = pl and n = r] u by simp
  with u assms show ?thesis by (simp add: Update_def)
qed

subsection \<open>The concrete frames, evaluated\<close>

lemma sqrt_less_iff_sq: "0 \<le> a \<Longrightarrow> sqrt a < b \<longleftrightarrow> 0 < b \<and> a < b * b"
  by (metis abs_of_nonneg abs_of_pos less_le_trans not_less real_sqrt_abs2 real_sqrt_ge_zero real_sqrt_less_iff real_sqrt_mult_self)

lemma init0: "Initialize QuadTree_new 128 64 2 = Some tree0"
  by (simp add: Initialize_def QuadTree_new_def BuildTree_split BuildTree_leaf tree0_def root_over_def leaf_at_def upt_conv_Cons)

lemma upd1: "Update tree0 camera_above planes_around = tree1"
  by (simp add: Update_def tree0_def tree1_def root_over_def leaf_at_def camera_above_def planes_around_def
      Intersects_def PlaneTest_def CalculateLOD_def ShouldSubdivide_def sqrt_less_iff_sq Let_def)

lemma upd2: "Update tree1 camera_above planes_aside = tree1 \<lparr>mVisibleNodeCount := 0, mNextObjectCBIndex := 0\<rparr>"
  by (simp add: Update_def tree0_def tree1_def root_over_def leaf_at_def camera_above_def planes_aside_def
      Intersects_def PlaneTest_def CalculateLOD_def ShouldSubdivide_def sqrt_less_iff_sq Let_def)

subsection \<open>Update twice\<close>

text \<open>
  C10. \<open>Update\<close> is idempotent: a second call with the same camera position and the
  same frustum planes leaves the tree object (every member of every node, the
  counters) exactly as the first call left it, so \<open>GetVisibleNodes\<close> and
  \<open>GetVisibleNodeCount\<close> answer the same. This holds from every state of the tree.
\<close>

theorem Update_idempotent:
  "Update (Update q cameraPos frustumPlanes) cameraPos frustumPlanes = Update q cameraPos frustumPlanes \<and>
   GetVisibleNodes (Update (Update q cameraPos frustumPlanes) cameraPos frustumPlanes) =
     GetVisibleNodes (Update q cameraPos frustumPlanes) \<and>
   GetVisibleNodeCount (Update (Update q cameraPos frustumPlanes) cameraPos frustumPlanes) =
     GetVisibleNodeCount (Update q cameraPos frustumPlanes)"
proof -
  have "Update (Update q cameraPos frustumPlanes) cameraPos frustumPlanes = Update q cameraPos frustumPlanes"
  proof (cases "mRoot q")
    case None
    then show ?thesis by (simp add: Update_def)
  next
    case (Some r)
    let ?q1 = "q\<lparr>mVisibleNodeCount := 0, mNextObjectCBIndex := 0\<rparr>"
    let ?k = "length (DrawTargets cameraPos frustumPlanes r)"
    obtain r' q2 where u: "UpdateNode ?q1 cameraPos frustumPlanes r = (r', q2)"
      by (cases "UpdateNode ?q1 cameraPos frustumPlanes r")
    have q2: "q2 = bump ?q1 ?k"
      using UpdateNode_effect [where q = ?q1 and cam = cameraPos and pl = frustumPlanes and n = r] u by simp
    have first: "Update q cameraPos frustumPlanes = q2\<lparr>mRoot := Some r'\<rparr>"
      using Some u by (simp add: Update_def)
    have reset: "(q2\<lparr>mRoot := Some r'\<rparr>)\<lparr>mVisibleNodeCount := 0, mNextObjectCBIndex := 0\<rparr> = ?q1\<lparr>mRoot := Some r'\<rparr>"
      by (simp add: q2 bump_def)
    have again: "UpdateNode ?q1 cameraPos frustumPlanes r' = (r', q2)"
      using UpdateNode_idem [where q = ?q1 and cam = cameraPos and pl = frustumPlanes and n = r] u by simp
    have "UpdateNode (?q1\<lparr>mRoot := Some r'\<rparr>) cameraPos frustumPlanes r' = (r', q2\<lparr>mRoot := Some r'\<rparr>)"
      using UpdateNode_mRoot [where q = ?q1 and r = "Some r'" and cam = cameraPos and pl = frustumPlanes and n = r'] again by simp
    then have "Update (q2\<lparr>mRoot := Some r'\<rparr>) cameraPos frustumPlanes = q2\<lparr>mRoot := Some r'\<rparr>"
      unfolding Update_def Let_def reset by simp
    with first show ?thesis by simp
  qed
  then show ?thesis by simp
qed

subsection \<open>Draw targets and their slots\<close>

lemma DrawTargets_two_level:
  "DrawTargets camera_above planes_around
     (root_over v l [leaf_at (-32) 32 v0 l0 i0, leaf_at 32 32 v1 l1 i1, leaf_at (-32) (-32) v2 l2 i2, leaf_at 32 (-32) v3 l3 i3])
   = [leaf_at (-32) 32 v0 l0 i0, leaf_at 32 32 v1 l1 i1, leaf_at (-32) (-32) v2 l2 i2, leaf_at 32 (-32) v3 l3 i3]"
  by (simp add: root_over_def leaf_at_def camera_above_def planes_around_def
      Intersects_def PlaneTest_def ShouldSubdivide_def sqrt_less_iff_sq Let_def)

text \<open>
  C8. In one \<open>Update\<close> the draw targets, taken in depth-first order with the children
  in index order, receive the \<open>ObjectCBIndex\<close> values 0, 1, 2, ... (as \<open>UINT\<close>): the
  counter starts at 0 in every \<open>Update\<close>, and at the end both \<open>mNextObjectCBIndex\<close>
  and \<open>GetVisibleNodeCount\<close> are the number of draw targets.
\<close>

theorem Update_assigns_sequential_indices:
  assumes "mRoot q = Some r"
    and "mRoot (Update q cameraPos frustumPlanes) = Some r'"
  shows "map idx (DrawTargets cameraPos frustumPlanes r') =
           map word_of_nat [0 ..< length (DrawTargets cameraPos frustumPlanes r)] \<and>
         length (DrawTargets cameraPos frustumPlanes r') = length (DrawTargets cameraPos frustumPlanes r) \<and>
         mNextObjectCBIndex (Update q cameraPos frustumPlanes) =
           word_of_nat (length (DrawTargets cameraPos frustumPlanes r)) \<and>
         GetVisibleNodeCount (Update q cameraPos frustumPlanes) =
           int (length (DrawTargets cameraPos frustumPlanes r))"
proof -
  let ?q1 = "q\<lparr>mVisibleNodeCount := 0, mNextObjectCBIndex := 0\<rparr>"
  let ?k = "length (DrawTargets cameraPos frustumPlanes r)"
  have u: "Update q cameraPos frustumPlanes =
             (bump ?q1 ?k)\<lparr>mRoot := Some (fst (UpdateNode ?q1 cameraPos frustumPlanes r))\<rparr>"
    by (rule Update_Some [OF assms(1)])
  with assms(2) have r': "r' = fst (UpdateNode ?q1 cameraPos frustumPlanes r)"
    by simp
  have i: "map idx (DrawTargets cameraPos frustumPlanes r') = map word_of_nat [0 ..< ?k]"
    using UpdateNode_effect [where q = ?q1 and cam = cameraPos and pl = frustumPlanes and n = r]
    by (simp add: r')
  from i have "length (map idx (DrawTargets cameraPos frustumPlanes r')) = length (map (word_of_nat :: nat \<Rightarrow> UINT) [0 ..< ?k])"
    by simp
  then have l: "length (DrawTargets cameraPos frustumPlanes r') = ?k"
    by simp
  show ?thesis
    using i l by (simp add: u GetVisibleNodeCount_def)
qed

theorem Update_assigns_sequential_indices_witness:
  "mRoot tree0 \<noteq> None \<and>
   map idx (DrawTargets camera_above planes_around (the (mRoot (Update tree0 camera_above planes_around)))) = [0, 1, 2, 3] \<and>
   mNextObjectCBIndex (Update tree0 camera_above planes_around) = 4 \<and>
   GetVisibleNodeCount (Update tree0 camera_above planes_around) = 4"
proof -
  have a: "mRoot tree0 = Some (root_over False 0 [leaf_at (-32) 32 False 1 0, leaf_at 32 32 False 1 0, leaf_at (-32) (-32) False 1 0, leaf_at 32 (-32) False 1 0])"
    by (simp add: tree0_def)
  have b: "mRoot (Update tree0 camera_above planes_around) =
             Some (root_over False 0 [leaf_at (-32) 32 True 0 0, leaf_at 32 32 True 0 1, leaf_at (-32) (-32) True 0 2, leaf_at 32 (-32) True 0 3])"
    by (simp add: upd1 tree1_def)
  have k: "length (DrawTargets camera_above planes_around
             (root_over False 0 [leaf_at (-32) 32 False 1 0, leaf_at 32 32 False 1 0, leaf_at (-32) (-32) False 1 0, leaf_at 32 (-32) False 1 0])) = 4"
    by (simp add: DrawTargets_two_level)
  show ?thesis
    using Update_assigns_sequential_indices [OF a b, unfolded k]
    by (simp add: a b upt_conv_Cons)
qed

subsection \<open>SetHeightRange\<close>

text \<open>
  C9. \<open>SetHeightRange\<close> changes nothing when there is no root. Otherwise the tree
  object changes in \<open>mRoot\<close> only, the root keeps its children as they are, and of
  the root's own members only \<open>MinY\<close>, \<open>MaxY\<close> and the \<open>y\<close> components of
  \<open>Bounds.Center\<close> and \<open>Bounds.Extents\<close> are written; all other members keep their
  values.
\<close>

theorem SetHeightRange_frame:
  "(mRoot q = None \<longrightarrow> SetHeightRange q x z size0 minY maxY = q) \<and>
   (\<forall>d cs. mRoot q = Some (TerrainNode d cs) \<longrightarrow>
      (\<exists>d'. SetHeightRange q x z size0 minY maxY = q\<lparr>mRoot := Some (TerrainNode d' cs)\<rparr> \<and>
            MinY d' = minY \<and> MaxY d' = maxY \<and>
            y3 (Center (Bounds d')) = (minY + maxY) * 0.5 \<and>
            y3 (Extents (Bounds d')) = (maxY - minY) * 0.5 + 10 \<and>
            X d' = X d \<and> Z d' = Z d \<and> Size d' = Size d \<and>
            LODLevel d' = LODLevel d \<and> MaxLOD d' = MaxLOD d \<and>
            IsLeaf d' = IsLeaf d \<and> IsVisible d' = IsVisible d \<and>
            ObjectCBIndex d' = ObjectCBIndex d \<and>
            x3 (Center (Bounds d')) = x3 (Center (Bounds d)) \<and>
            z3 (Center (Bounds d')) = z3 (Center (Bounds d)) \<and>
            x3 (Extents (Bounds d')) = x3 (Extents (Bounds d)) \<and>
            z3 (Extents (Bounds d')) = z3 (Extents (Bounds d))))"
  by (auto simp: SetHeightRange_def)

theorem SetHeightRange_frame_witness:
  "mRoot tree1 = Some (root_over False 0 [leaf_at (-32) 32 True 0 0, leaf_at 32 32 True 0 1, leaf_at (-32) (-32) True 0 2, leaf_at 32 (-32) True 0 3]) \<and>
   (\<exists>d'. SetHeightRange tree1 0 0 128 0 150 =
           tree1\<lparr>mRoot := Some (TerrainNode d' [leaf_at (-32) 32 True 0 0, leaf_at 32 32 True 0 1, leaf_at (-32) (-32) True 0 2, leaf_at 32 (-32) True 0 3])\<rparr> \<and>
         MinY d' = 0 \<and> MaxY d' = 150 \<and> y3 (Center (Bounds d')) = 75 \<and> y3 (Extents (Bounds d')) = 85 \<and>
         X d' = 0 \<and> Z d' = 0 \<and> Size d' = 128 \<and> IsLeaf d' = False \<and>
         x3 (Extents (Bounds d')) = 64 \<and> z3 (Extents (Bounds d')) = 64) \<and>
   SetHeightRange QuadTree_new 0 0 128 0 150 = QuadTree_new"
proof -
  have a: "mRoot tree1 = Some (TerrainNode (Fields (root_over False 0 [])) [leaf_at (-32) 32 True 0 0, leaf_at 32 32 True 0 1, leaf_at (-32) (-32) True 0 2, leaf_at 32 (-32) True 0 3])"
    by (simp add: tree1_def root_over_def)
  have n: "mRoot QuadTree_new = None"
    by (simp add: QuadTree_new_def)
  from SetHeightRange_frame [of tree1 0 0 128 0 150] a
  obtain d' where "SetHeightRange tree1 0 0 128 0 150 =
           tree1\<lparr>mRoot := Some (TerrainNode d' [leaf_at (-32) 32 True 0 0, leaf_at 32 32 True 0 1, leaf_at (-32) (-32) True 0 2, leaf_at 32 (-32) True 0 3])\<rparr> \<and>
         MinY d' = 0 \<and> MaxY d' = 150 \<and> y3 (Center (Bounds d')) = 75 \<and> y3 (Extents (Bounds d')) = 85 \<and>
         X d' = 0 \<and> Z d' = 0 \<and> Size d' = 128 \<and> IsLeaf d' = False \<and>
         x3 (Extents (Bounds d')) = 64 \<and> z3 (Extents (Bounds d')) = 64"
    by (auto simp: root_over_def)
  moreover have "SetHeightRange QuadTree_new 0 0 128 0 150 = QuadTree_new"
    using SetHeightRange_frame [of QuadTree_new 0 0 128 0 150] n by simp
  ultimately show ?thesis
    using a by (auto simp: root_over_def)
qed

subsection \<open>The level of detail\<close>

lemma CalculateLOD_find:
  "CalculateLOD q n c =
     (case find (\<lambda>i. CameraDistance n c < mLODDistances q ! i) [0 ..< length (mLODDistances q)] of
        Some i \<Rightarrow> int i | None \<Rightarrow> mMaxLODLevels q - 1)"
  by (simp add: CalculateLOD_def CameraDistance_def Let_def)

lemma find_upt_Some:
  "find P [0 ..< n] = Some i \<longleftrightarrow> i < n \<and> P i \<and> (\<forall>j<i. \<not> P j)"
  by (auto simp: find_Some_iff)

lemma find_upt_None: "find P [0 ..< n] = None \<longleftrightarrow> (\<forall>i<n. \<not> P i)"
  by (auto simp: find_None_iff)

lemma less_sqrt_iff_sq: "0 \<le> a \<Longrightarrow> a < sqrt b \<longleftrightarrow> a * a < b"
  using real_sqrt_less_iff [of "a * a" b] by simp

lemma init_wide: "Initialize (SetLODDistances QuadTree_new [1, 2, 1000]) 4000 64 2 = Some wide0"
  by (simp add: Initialize_def SetLODDistances_def QuadTree_new_def BuildTree_split BuildTree_leaf wide0_def built_node_def)

lemma upd_wide:
  "mRoot (Update wide0 camera_side planes_far) =
     Some (built_node 0 0 4000 False False 1 0
                [built_node (-1000) 1000 2000 True True 1 0 [], built_node 1000 1000 2000 True True 2 1 [],
                 built_node (-1000) (-1000) 2000 True True 1 2 [], built_node 1000 (-1000) 2000 True True 1 3 []])"
  by (simp add: Update_def wide0_def built_node_def camera_side_def planes_far_def
      Intersects_def PlaneTest_def CalculateLOD_def ShouldSubdivide_def sqrt_less_iff_sq Let_def upt_conv_Cons)

text \<open>
  C5, as the code has it. The level computed for a node is the index of the first
  table entry that strictly exceeds the distance from the camera to the node's
  centre, or \<open>mMaxLODLevels - 1\<close> when no entry exceeds it. When the table has at
  most \<open>mMaxLODLevels\<close> entries, a node at least as far from the camera as another
  gets a level at least as large.
\<close>

theorem CalculateLOD_first_exceeding:
  "((\<exists>i < length (mLODDistances q).
       CameraDistance n c < mLODDistances q ! i \<and>
       (\<forall>j<i. \<not> CameraDistance n c < mLODDistances q ! j) \<and>
       CalculateLOD q n c = int i)
    \<or> ((\<forall>i < length (mLODDistances q). \<not> CameraDistance n c < mLODDistances q ! i) \<and>
        CalculateLOD q n c = mMaxLODLevels q - 1))
   \<and> (int (length (mLODDistances q)) \<le> mMaxLODLevels q \<longrightarrow>
        CameraDistance n c \<le> CameraDistance n' c \<longrightarrow>
        CalculateLOD q n c \<le> CalculateLOD q n' c)"
proof
  let ?t = "mLODDistances q"
  let ?P = "\<lambda>m i. CameraDistance m c < ?t ! i"
  show "(\<exists>i < length ?t. ?P n i \<and> (\<forall>j<i. \<not> ?P n j) \<and> CalculateLOD q n c = int i)
    \<or> ((\<forall>i < length ?t. \<not> ?P n i) \<and> CalculateLOD q n c = mMaxLODLevels q - 1)"
  proof (cases "find (?P n) [0 ..< length ?t]")
    case None
    then have "\<forall>i<length ?t. \<not> ?P n i" by (simp add: find_upt_None)
    with None show ?thesis by (simp add: CalculateLOD_find)
  next
    case (Some i)
    then have "i < length ?t \<and> ?P n i \<and> (\<forall>j<i. \<not> ?P n j)"
      by (simp add: find_upt_Some)
    with Some show ?thesis by (auto simp: CalculateLOD_find)
  qed
  show "int (length ?t) \<le> mMaxLODLevels q \<longrightarrow> CameraDistance n c \<le> CameraDistance n' c \<longrightarrow>
        CalculateLOD q n c \<le> CalculateLOD q n' c"
  proof (intro impI)
    assume len: "int (length ?t) \<le> mMaxLODLevels q" and le: "CameraDistance n c \<le> CameraDistance n' c"
    show "CalculateLOD q n c \<le> CalculateLOD q n' c"
    proof (cases "find (?P n) [0 ..< length ?t]")
      case None
      then have "\<forall>i<length ?t. \<not> ?P n i" by (simp add: find_upt_None)
      with le have "\<forall>i<length ?t. \<not> ?P n' i" by auto
      then have "find (?P n') [0 ..< length ?t] = None" by (simp add: find_upt_None)
      with None show ?thesis by (simp add: CalculateLOD_find)
    next
      case (Some i)
      then have i: "i < length ?t" "\<forall>j<i. \<not> ?P n j" by (simp_all add: find_upt_Some)
      show ?thesis
      proof (cases "find (?P n') [0 ..< length ?t]")
        case None
        with Some i len show ?thesis by (simp add: CalculateLOD_find)
      next
        case (Some i')
        then have "?P n' i'" by (simp add: find_upt_Some)
        with le have "?P n i'" by simp
        with i(2) have "i \<le> i'" by (meson not_le)
        with Some \<open>find (?P n) [0 ..< length ?t] = Some i\<close> show ?thesis
          by (simp add: CalculateLOD_find)
      qed
    qed
  qed
qed

theorem CalculateLOD_first_exceeding_witness:
  "int (length (mLODDistances app_tree)) \<le> mMaxLODLevels app_tree \<and>
   CameraDistance (Fields (leaf_at 32 32 False 0 0)) camera_above
     \<le> CameraDistance (Fields (leaf_at 480 32 False 0 0)) camera_above \<and>
   CalculateLOD app_tree (Fields (leaf_at 32 32 False 0 0)) camera_above = 0 \<and>
   CalculateLOD app_tree (Fields (leaf_at 480 32 False 0 0)) camera_above = 3 \<and>
   CalculateLOD app_tree (Fields (leaf_at 32 32 False 0 0)) camera_above
     \<le> CalculateLOD app_tree (Fields (leaf_at 480 32 False 0 0)) camera_above"
proof -
  have a: "int (length (mLODDistances app_tree)) \<le> mMaxLODLevels app_tree"
    by (simp add: app_tree_def)
  have b: "CameraDistance (Fields (leaf_at 32 32 False 0 0)) camera_above
     \<le> CameraDistance (Fields (leaf_at 480 32 False 0 0)) camera_above"
    by (simp add: CameraDistance_def leaf_at_def camera_above_def)
  have c: "CalculateLOD app_tree (Fields (leaf_at 32 32 False 0 0)) camera_above = 0"
    by (simp add: CalculateLOD_def leaf_at_def camera_above_def app_tree_def sqrt_less_iff_sq upt_conv_Cons)
  have d: "CalculateLOD app_tree (Fields (leaf_at 480 32 False 0 0)) camera_above = 3"
    by (simp add: CalculateLOD_def leaf_at_def camera_above_def app_tree_def sqrt_less_iff_sq upt_conv_Cons)
  from CalculateLOD_first_exceeding [of app_tree "Fields (leaf_at 32 32 False 0 0)" camera_above "Fields (leaf_at 480 32 False 0 0)"] a b
  have "CalculateLOD app_tree (Fields (leaf_at 32 32 False 0 0)) camera_above
     \<le> CalculateLOD app_tree (Fields (leaf_at 480 32 False 0 0)) camera_above"
    by blast
  with a b c d show ?thesis by blast
qed

text \<open>
  C5 as stated, for every table, fails: with the table \<open>{1, 2, 1000}\<close> and 2 levels,
  the child at distance 100 gets level 2 and its sibling at distance above 2000
  gets the fallback level 1.
\<close>

theorem farther_node_lower_lod:
  "Initialize (SetLODDistances QuadTree_new [1, 2, 1000]) 4000 64 2 = Some wide0 \<and>
   mRoot (Update wide0 camera_side planes_far) =
     Some (built_node 0 0 4000 False False 1 0
                [built_node (-1000) 1000 2000 True True 1 0 [], built_node 1000 1000 2000 True True 2 1 [],
                 built_node (-1000) (-1000) 2000 True True 1 2 [], built_node 1000 (-1000) 2000 True True 1 3 []]) \<and>
   CameraDistance (Fields (built_node 1000 1000 2000 True True 2 1 [])) camera_side
     < CameraDistance (Fields (built_node (-1000) 1000 2000 True True 1 0 [])) camera_side \<and>
   LODLevel (Fields (built_node 1000 1000 2000 True True 2 1 [])) = 2 \<and>
   LODLevel (Fields (built_node (-1000) 1000 2000 True True 1 0 [])) = 1 \<and>
   CalculateLOD wide0 (Fields (built_node 1000 1000 2000 True True 2 1 [])) camera_side = 2 \<and>
   CalculateLOD wide0 (Fields (built_node (-1000) 1000 2000 True True 1 0 [])) camera_side = 1"
  by (simp add: init_wide upd_wide)
     (simp add: built_node_def camera_side_def CameraDistance_def CalculateLOD_def wide0_def sqrt_less_iff_sq less_sqrt_iff_sq upt_conv_Cons)

subsection \<open>Culling\<close>

text \<open>
  \<open>PlaneTest\<close> evaluates the plane at the corner of the box farthest along the
  normal, so it bounds the signed distance of every point of the box: a box
  rejected by \<open>Intersects\<close> lies entirely on the negative side of one of the six
  planes.
\<close>

lemma coord_le:
  fixes a c e p :: real
  assumes "\<bar>p - c\<bar> \<le> e"
  shows "a * p \<le> a * (if a \<ge> 0 then c + e else c - e)"
proof (cases "a \<ge> 0")
  case True
  from assms have "p \<le> c + e" by linarith
  with True show ?thesis by (simp add: mult_left_mono)
next
  case False
  from assms have "c - e \<le> p" by linarith
  with False show ?thesis by (simp add: mult_left_mono_neg)
qed

lemma PlaneTest_bounds_box:
  assumes "InBox b p"
  shows "SignedDistance pl p \<le> PlaneTest b pl"
proof -
  from assms have a:
    "\<bar>x3 p - x3 (Center b)\<bar> \<le> x3 (Extents b)"
    "\<bar>y3 p - y3 (Center b)\<bar> \<le> y3 (Extents b)"
    "\<bar>z3 p - z3 (Center b)\<bar> \<le> z3 (Extents b)"
    by (simp_all add: InBox_def)
  note coord_le [OF a(1), of "x4 pl"] coord_le [OF a(2), of "y4 pl"] coord_le [OF a(3), of "z4 pl"]
  then show ?thesis
    unfolding SignedDistance_def PlaneTest_def Let_def by linarith
qed

lemma culled_box_is_behind_plane:
  assumes "\<not> Intersects b frustumPlanes"
  shows "\<exists>i<6. \<forall>p. InBox b p \<longrightarrow> SignedDistance (frustumPlanes ! i) p < 0"
proof -
  from assms have "\<exists>i \<in> set [0, 1, 2, 3, 4, 5 :: nat]. PlaneTest b (frustumPlanes ! i) < 0"
    unfolding Intersects_def list_all_iff by blast
  then obtain i where i: "i \<in> set [0, 1, 2, 3, 4, 5 :: nat]" "PlaneTest b (frustumPlanes ! i) < 0"
    by blast
  from i(1) have "i < 6" by auto
  moreover have "\<forall>p. InBox b p \<longrightarrow> SignedDistance (frustumPlanes ! i) p < 0"
    using PlaneTest_bounds_box [of b _ "frustumPlanes ! i"] i(2) by (meson le_less_trans)
  ultimately show ?thesis by blast
qed

lemma upd2_nodes:
  "GetVisibleNodes (tree1\<lparr>mVisibleNodeCount := 0, mNextObjectCBIndex := 0\<rparr>) =
     [leaf_at (-32) 32 True 0 0, leaf_at 32 32 True 0 1, leaf_at (-32) (-32) True 0 2, leaf_at 32 (-32) True 0 3]"
  by (simp add: GetVisibleNodes_def tree1_def root_over_def leaf_at_def)

text \<open>
  C1 at a concrete sequence of frames. The tree of \<open>Initialize(128, 64, 2)\<close> is
  updated with the camera above its centre and the terrain inside the frustum:
  the root is subdivided and its four children are the draw targets. In the next
  frame the frustum lies beside the terrain: the root's box is entirely behind
  plane 0 and \<open>UpdateNode\<close> returns at the root, which leaves the children's
  \<open>IsVisible\<close> flags of the frame before. \<open>GetVisibleNodes\<close> then descends from the
  root (not visible, not a leaf) and lists the four children, while
  \<open>GetVisibleNodeCount\<close> is 0.
\<close>

theorem culled_root_lists_stale_children:
  "Initialize QuadTree_new 128 64 2 = Some tree0 \<and>
   Update tree0 camera_above planes_around = tree1 \<and>
   mRoot tree1 = Some (root_over False 0
      [leaf_at (-32) 32 True 0 0, leaf_at 32 32 True 0 1, leaf_at (-32) (-32) True 0 2, leaf_at 32 (-32) True 0 3]) \<and>
   PlaneTest (Bounds (Fields (root_over False 0 []))) (planes_aside ! 0) < 0 \<and>
   \<not> Intersects (Bounds (Fields (root_over False 0 []))) planes_aside \<and>
   GetVisibleNodes (Update tree1 camera_above planes_aside) =
     [leaf_at (-32) 32 True 0 0, leaf_at 32 32 True 0 1, leaf_at (-32) (-32) True 0 2, leaf_at 32 (-32) True 0 3] \<and>
   GetVisibleNodeCount (Update tree1 camera_above planes_aside) = 0"
  by (simp add: init0 upd1 upd2 upd2_nodes GetVisibleNodeCount_def)
     (simp add: tree1_def root_over_def planes_aside_def Intersects_def PlaneTest_def)

subsection \<open>The tree built by \<open>Initialize\<close>\<close>






section \<open>Properties of the heightfield\<close>

subsection \<open>Loading a raw file\<close>

lemma LoadHeightmap_sized:
  "heightmap_sized (snd (LoadHeightmap t (Some bytes) width height is16Bit))"
  by (simp add: LoadHeightmap_def heightmap_sized_def Let_def)

text \<open>
  C2, as the code has it. For a 16-bit file one byte short of
  \<open>width * height * 2\<close> bytes, \<open>LoadHeightmap\<close> returns \<open>true\<close>: it never tests the
  stream after \<open>read\<close>. The grid holds \<open>width * height\<close> samples; all but the last
  are decoded from the file, the last one from the file's final byte and a zero
  high byte; \<open>read\<close> extracts exactly the bytes of the file and none beyond.
\<close>

theorem LoadHeightmap_short_file:
  assumes "length bytes = unat width * unat height * 2 - 1"
    and "1 \<le> unat width * unat height"
  shows "fst (LoadHeightmap t (Some bytes) width height True) = True \<and>
         length (mHeightmap (snd (LoadHeightmap t (Some bytes) width height True))) = unat width * unat height \<and>
         (\<forall>i < unat width * unat height - 1.
            mHeightmap (snd (LoadHeightmap t (Some bytes) width height True)) ! i =
              real (unat (bytes ! (2 * i)) + 256 * unat (bytes ! (2 * i + 1))) / 65535) \<and>
         mHeightmap (snd (LoadHeightmap t (Some bytes) width height True)) ! (unat width * unat height - 1) =
           real (unat (bytes ! (2 * (unat width * unat height - 1)))) / 65535 \<and>
         snd (ifstream_read bytes (unat width * unat height * 2)) = length bytes"
proof -
  let ?n = "unat width * unat height"
  let ?raw = "fst (ifstream_read bytes (?n * 2))"
  have raw: "?raw = bytes @ [0]"
    using assms by (simp add: ifstream_read_def)
  have hm: "mHeightmap (snd (LoadHeightmap t (Some bytes) width height True)) =
        map (\<lambda>i. real (unat (?raw ! (2 * i)) + 256 * unat (?raw ! (2 * i + 1))) / 65535) [0 ..< ?n]"
    by (simp add: LoadHeightmap_def Let_def)
  have inner: "?raw ! (2 * i) = bytes ! (2 * i) \<and> ?raw ! (2 * i + 1) = bytes ! (2 * i + 1)"
    if "i < ?n - 1" for i
  proof -
    from that assms have "2 * i + 1 < length bytes" by linarith
    then show ?thesis unfolding raw by (simp add: nth_append)
  qed
  have last: "?raw ! (2 * (?n - 1)) = bytes ! (2 * (?n - 1)) \<and> ?raw ! (2 * (?n - 1) + 1) = 0"
  proof -
    from assms have l: "length bytes = 2 * (?n - 1) + 1" by linarith
    then have "2 * (?n - 1) < length bytes" by linarith
    with l show ?thesis unfolding raw by (simp add: nth_append)
  qed
  have "fst (LoadHeightmap t (Some bytes) width height True) = True"
    by (simp add: LoadHeightmap_def Let_def)
  moreover have "length (mHeightmap (snd (LoadHeightmap t (Some bytes) width height True))) = ?n"
    unfolding hm by simp
  moreover have "\<forall>i < ?n - 1. mHeightmap (snd (LoadHeightmap t (Some bytes) width height True)) ! i =
              real (unat (bytes ! (2 * i)) + 256 * unat (bytes ! (2 * i + 1))) / 65535"
    unfolding hm using inner by simp
  moreover have "mHeightmap (snd (LoadHeightmap t (Some bytes) width height True)) ! (?n - 1) =
           real (unat (bytes ! (2 * (?n - 1)))) / 65535"
    unfolding hm using last assms(2) by simp
  moreover have "snd (ifstream_read bytes (?n * 2)) = length bytes"
    using assms by (simp add: ifstream_read_def)
  ultimately show ?thesis by blast
qed

theorem LoadHeightmap_short_file_witness:
  "length [1, 2, 3 :: byte] = unat (2 :: UINT) * unat (1 :: UINT) * 2 - 1 \<and>
   1 \<le> unat (2 :: UINT) * unat (1 :: UINT) \<and>
   fst (LoadHeightmap terrain0 (Some [1, 2, 3]) 2 1 True) = True \<and>
   mHeightmap (snd (LoadHeightmap terrain0 (Some [1, 2, 3]) 2 1 True)) ! 0 = 513 / 65535 \<and>
   mHeightmap (snd (LoadHeightmap terrain0 (Some [1, 2, 3]) 2 1 True)) ! 1 = 3 / 65535"
proof -
  have a: "length [1, 2, 3 :: byte] = unat (2 :: UINT) * unat (1 :: UINT) * 2 - 1" by simp
  have b: "1 \<le> unat (2 :: UINT) * unat (1 :: UINT)" by simp
  from LoadHeightmap_short_file [OF a b, of terrain0] a b show ?thesis by simp
qed

text \<open>
  C2 as stated fails: for \<open>width = height = 1\<close> and a file of the single byte 255
  the call reports success and stores the sample \<open>255 / 65535\<close>.
\<close>

theorem LoadHeightmap_short_file_succeeds:
  "length [255 :: byte] = unat (1 :: UINT) * unat (1 :: UINT) * 2 - 1 \<and>
   fst (LoadHeightmap terrain0 (Some [255]) 1 1 True) = True \<and>
   mHeightmap (snd (LoadHeightmap terrain0 (Some [255]) 1 1 True)) = [255 / 65535]"
  by (simp add: LoadHeightmap_def ifstream_read_def)

subsection \<open>Sampling\<close>

lemma sint_le_unat: "sint (w :: 'a::len word) \<le> int (unat w)"
proof -
  have "- (2 ^ (LENGTH('a) - Suc 0)) \<le> (0 :: int)" by simp
  also have "0 \<le> uint w" by simp
  finally have "signed_take_bit (LENGTH('a) - Suc 0) (uint w) \<le> uint w"
    by (simp only: signed_take_bit_int_less_eq_self_iff)
  then show ?thesis by (simp add: sint_uint)
qed
lemma sint_eq_unat:
  assumes "unat (w :: 32 word) < 2 ^ 31"
  shows "sint w = int (unat w)"
proof -
  from assms have "int (unat w) < int (2 ^ 31)" by (simp only: of_nat_less_iff)
  then have "uint w < 2 ^ 31" by simp
  moreover have "- (2 ^ 31) \<le> uint w"
    by (rule order_trans [of _ 0]) simp_all
  ultimately have "signed_take_bit 31 (uint w) = uint w"
    by (rule signed_take_bit_int_eq_self [rotated])
  then show ?thesis by (simp add: sint_uint)
qed

lemma SampleCell_in_grid:
  assumes "mHeightmap t \<noteq> []" and "heightmap_sized t"
  shows "case SampleCell t i j of (cx, cz) \<Rightarrow>
           0 \<le> cx \<and> cx \<le> int (unat (mHeightmapWidth t)) - 1 \<and>
           0 \<le> cz \<and> cz \<le> int (unat (mHeightmapHeight t)) - 1 \<and>
           nat cz * unat (mHeightmapWidth t) + nat cx < length (mHeightmap t)"
proof -
  let ?w = "unat (mHeightmapWidth t)" and ?h = "unat (mHeightmapHeight t)"
  from assms(1) have "length (mHeightmap t) \<noteq> 0" by simp
  with assms(2) have "?w * ?h \<noteq> 0" by (simp add: heightmap_sized_def)
  then have w: "1 \<le> ?w" and h: "1 \<le> ?h" by simp_all
  have sw: "sint (mHeightmapWidth t) \<le> int ?w" and sh: "sint (mHeightmapHeight t) \<le> int ?h"
    by (rule sint_le_unat)+
  define cx where "cx = max 0 (min i (sint (mHeightmapWidth t) - 1))"
  define cz where "cz = max 0 (min j (sint (mHeightmapHeight t) - 1))"
  have cx: "0 \<le> cx" "cx \<le> int ?w - 1" unfolding cx_def using w sw by linarith+
  have cz: "0 \<le> cz" "cz \<le> int ?h - 1" unfolding cz_def using h sh by linarith+
  from cx w have ncx: "nat cx < ?w" by linarith
  from cz h have ncz: "nat cz < ?h" by linarith
  have "nat cz * ?w + nat cx < (nat cz + 1) * ?w" using ncx by simp
  also have "\<dots> \<le> ?h * ?w" using ncz by (intro mult_le_mono1) simp
  finally have "nat cz * ?w + nat cx < length (mHeightmap t)"
    using assms(2) by (simp add: heightmap_sized_def mult.commute)
  with cx cz show ?thesis
    by (simp add: SampleCell_def cx_def cz_def)
qed

lemma SampleHeight_reads_in_grid:
  assumes "mHeightmap t \<noteq> []" and "heightmap_sized t"
  shows "\<exists>h. SampleHeight t i j = Some h"
  using SampleCell_in_grid [OF assms, of i j]
  by (auto simp: SampleHeight_def Let_def split: prod.splits)

lemma GetHeight_reads_in_grid:
  assumes "heightmap_sized t"
  shows "\<exists>h. GetHeight t x z = Some h"
proof (cases "mHeightmap t = []")
  case True
  then show ?thesis by (simp add: GetHeight_def)
next
  case False
  note s = SampleHeight_reads_in_grid [OF False assms]
  let ?x0 = "\<lfloor>(x / mTerrainSizeT t + 0.5) * real (unat (mHeightmapWidth t))\<rfloor>"
  let ?z0 = "\<lfloor>(z / mTerrainSizeT t + 0.5) * real (unat (mHeightmapHeight t))\<rfloor>"
  from s [of ?x0 ?z0] s [of "?x0 + 1" ?z0] s [of ?x0 "?z0 + 1"] s [of "?x0 + 1" "?z0 + 1"]
  obtain h00 h10 h01 h11 where
    "SampleHeight t ?x0 ?z0 = Some h00" "SampleHeight t (?x0 + 1) ?z0 = Some h10"
    "SampleHeight t ?x0 (?z0 + 1) = Some h01" "SampleHeight t (?x0 + 1) (?z0 + 1) = Some h11"
    by blast
  with False show ?thesis by (simp add: GetHeight_def Let_def)
qed

text \<open>
  C6. For a terrain whose vector of samples has \<open>width * height\<close> entries, and for
  all world coordinates: every cell that \<open>SampleHeight\<close> addresses lies in
  \<open>[0, width - 1] \<times> [0, height - 1]\<close> and its index is inside the vector, so
  \<open>GetHeight\<close> and \<open>GetNormal\<close> never read outside the grid (their result is never
  \<open>None\<close>); with an empty grid \<open>GetHeight\<close> returns 0.
\<close>

theorem Height_Normal_read_inside_grid:
  assumes "heightmap_sized t"
  shows "(mHeightmap t = [] \<longrightarrow> GetHeight t x z = Some 0) \<and>
         (\<exists>h. GetHeight t x z = Some h) \<and>
         (\<exists>n. GetNormal XMVector3Normalize t x z = Some n) \<and>
         (mHeightmap t \<noteq> [] \<longrightarrow>
            (\<forall>i j. case SampleCell t i j of (cx, cz) \<Rightarrow>
               0 \<le> cx \<and> cx \<le> int (unat (mHeightmapWidth t)) - 1 \<and>
               0 \<le> cz \<and> cz \<le> int (unat (mHeightmapHeight t)) - 1 \<and>
               nat cz * unat (mHeightmapWidth t) + nat cx < length (mHeightmap t)))"
proof -
  note g = GetHeight_reads_in_grid [OF assms]
  let ?step = "mTerrainSizeT t / real (unat (mHeightmapWidth t))"
  from g [of "x - ?step" z] g [of "x + ?step" z] g [of x "z - ?step"] g [of x "z + ?step"]
  obtain hL hR hD hU where
    "GetHeight t (x - ?step) z = Some hL" "GetHeight t (x + ?step) z = Some hR"
    "GetHeight t x (z - ?step) = Some hD" "GetHeight t x (z + ?step) = Some hU"
    by blast
  then have n: "\<exists>n. GetNormal XMVector3Normalize t x z = Some n"
    by (simp add: GetNormal_def Let_def)
  have e: "mHeightmap t = [] \<longrightarrow> GetHeight t x z = Some 0"
    by (simp add: GetHeight_def)
  have c: "mHeightmap t \<noteq> [] \<longrightarrow>
            (\<forall>i j. case SampleCell t i j of (cx, cz) \<Rightarrow>
               0 \<le> cx \<and> cx \<le> int (unat (mHeightmapWidth t)) - 1 \<and>
               0 \<le> cz \<and> cz \<le> int (unat (mHeightmapHeight t)) - 1 \<and>
               nat cz * unat (mHeightmapWidth t) + nat cx < length (mHeightmap t))"
    by (intro impI allI) (rule SampleCell_in_grid [OF _ assms])
  from e g [of x z] n c show ?thesis by (intro conjI)
qed

theorem Height_Normal_read_inside_grid_witness:
  "heightmap_sized grid23 \<and> heightmap_sized terrain0 \<and>
   GetHeight terrain0 5120 0 = Some 0 \<and>
   (\<exists>h. GetHeight grid23 5120 0 = Some h) \<and>
   (\<exists>n. GetNormal (\<lambda>v. v) grid23 5120 0 = Some n) \<and>
   SampleCell grid23 21 1 = (1, 1)"
proof -
  have a: "heightmap_sized grid23" by (simp add: heightmap_sized_def grid23_def)
  have b: "heightmap_sized terrain0" by (simp add: heightmap_sized_def terrain0_def)
  have c: "mHeightmap terrain0 = []" by (simp add: terrain0_def)
  have d: "SampleCell grid23 21 1 = (1, 1)" by (simp add: SampleCell_def grid23_def)
  from Height_Normal_read_inside_grid [OF b, of 5120 0] c
  have "GetHeight terrain0 5120 0 = Some 0" by blast
  with Height_Normal_read_inside_grid [OF a, of 5120 0 "\<lambda>v. v"] a b d show ?thesis by blast
qed

lemma SampleHeight_at_texel:
  assumes "heightmap_sized t"
    and "i < unat (mHeightmapWidth t)" and "j < unat (mHeightmapHeight t)"
    and "unat (mHeightmapWidth t) < 2 ^ 31" and "unat (mHeightmapHeight t) < 2 ^ 31"
  shows "SampleHeight t (int i) (int j) = Some (mHeightmap t ! (j * unat (mHeightmapWidth t) + i))"
proof -
  let ?w = "unat (mHeightmapWidth t)" and ?h = "unat (mHeightmapHeight t)"
  have "max 0 (min (int i) (sint (mHeightmapWidth t) - 1)) = int i"
    unfolding sint_eq_unat [OF assms(4)] using assms(2) by linarith
  moreover have "max 0 (min (int j) (sint (mHeightmapHeight t) - 1)) = int j"
    unfolding sint_eq_unat [OF assms(5)] using assms(3) by linarith
  ultimately have c: "SampleCell t (int i) (int j) = (int i, int j)"
    by (simp add: SampleCell_def)
  have "j * ?w + i < (j + 1) * ?w" using assms(2) by simp
  also have "\<dots> \<le> ?h * ?w" using assms(3) by (intro mult_le_mono1) simp
  finally have "j * ?w + i < length (mHeightmap t)"
    using assms(1) by (simp add: heightmap_sized_def mult.commute)
  then show ?thesis by (simp add: SampleHeight_def c)
qed

text \<open>
  C7. When the world coordinates map exactly onto the texel \<open>(i, j)\<close> of a
  non-empty grid, \<open>GetHeight\<close> returns
  \<open>mMinHeight + s * (mMaxHeight - mMinHeight)\<close> for the stored sample \<open>s\<close> of that
  texel: both interpolation weights are 0. (The dimensions are below \<open>2^31\<close>, so
  that the casts to \<open>int\<close> keep them; the terrain size is not 0.)
\<close>

theorem GetHeight_at_texel:
  assumes "heightmap_sized t" and "mHeightmap t \<noteq> []" and "mTerrainSizeT t \<noteq> 0"
    and "unat (mHeightmapWidth t) < 2 ^ 31" and "unat (mHeightmapHeight t) < 2 ^ 31"
    and "i < unat (mHeightmapWidth t)" and "j < unat (mHeightmapHeight t)"
    and "(x / mTerrainSizeT t + 0.5) * real (unat (mHeightmapWidth t)) = real i"
    and "(z / mTerrainSizeT t + 0.5) * real (unat (mHeightmapHeight t)) = real j"
  shows "GetHeight t x z =
           Some (mMinHeight t + mHeightmap t ! (j * unat (mHeightmapWidth t) + i) * (mMaxHeight t - mMinHeight t))"
proof -
  note s = SampleHeight_reads_in_grid [OF assms(2) assms(1)]
  from s [of "int i + 1" "int j"] s [of "int i" "int j + 1"] s [of "int i + 1" "int j + 1"]
  obtain h10 h01 h11 where h:
    "SampleHeight t (int i + 1) (int j) = Some h10" "SampleHeight t (int i) (int j + 1) = Some h01"
    "SampleHeight t (int i + 1) (int j + 1) = Some h11"
    by blast
  note h00 = SampleHeight_at_texel [OF assms(1) assms(6) assms(7) assms(4) assms(5)]
  show ?thesis
    unfolding GetHeight_def Let_def assms(8) assms(9)
    using assms(2) by (simp add: h h00)
qed

theorem GetHeight_at_texel_witness:
  "heightmap_sized grid23 \<and> mHeightmap grid23 \<noteq> [] \<and> mTerrainSizeT grid23 \<noteq> 0 \<and>
   (1 :: nat) < unat (mHeightmapWidth grid23) \<and> (2 :: nat) < unat (mHeightmapHeight grid23) \<and>
   (0 / mTerrainSizeT grid23 + 0.5) * real (unat (mHeightmapWidth grid23)) = real (1 :: nat) \<and>
   ((256 / 3) / mTerrainSizeT grid23 + 0.5) * real (unat (mHeightmapHeight grid23)) = real (2 :: nat) \<and>
   GetHeight grid23 0 (256 / 3) = Some 75"
proof -
  have a: "heightmap_sized grid23" by (simp add: heightmap_sized_def grid23_def)
  have b: "mHeightmap grid23 \<noteq> []" by (simp add: grid23_def)
  have c: "mTerrainSizeT grid23 \<noteq> 0" by (simp add: grid23_def terrain0_def)
  have d: "unat (mHeightmapWidth grid23) < 2 ^ 31" "unat (mHeightmapHeight grid23) < 2 ^ 31"
    by (simp_all add: grid23_def)
  have e: "(1 :: nat) < unat (mHeightmapWidth grid23)" "(2 :: nat) < unat (mHeightmapHeight grid23)"
    by (simp_all add: grid23_def)
  have f: "(0 / mTerrainSizeT grid23 + 0.5) * real (unat (mHeightmapWidth grid23)) = real (1 :: nat)"
    by (simp add: grid23_def terrain0_def)
  have g: "((256 / 3) / mTerrainSizeT grid23 + 0.5) * real (unat (mHeightmapHeight grid23)) = real (2 :: nat)"
    by (simp add: grid23_def terrain0_def)
  have "GetHeight grid23 0 (256 / 3) = Some 75"
    using GetHeight_at_texel [OF a b c d e f g] by (simp add: grid23_def terrain0_def)
  with a b c e f g show ?thesis by blast
qed

subsection \<open>The procedural heightmap\<close>

text \<open>
  At the cell \<open>(0, 0)\<close> every octave samples the noise at the origin, where all
  offsets and hence all gradient products are 0: its value is \<open>1/2\<close> whatever the
  permutation is. So the running maximum (started at 0) and minimum (started at 1)
  end as the maximum and minimum of the grid.
\<close>

lemma PerlinNoise_origin: "PerlinNoise t 0 0 = 0"
  by (simp add: PerlinNoise_def Fade_def Lerp_def Grad_def Let_def)

lemma OctaveLoop_origin:
  "fst (OctaveLoop t 0 0 octaves oct (0, amp, freq, ampSum)) = 0"
proof (induction "nat (octaves - oct)" arbitrary: oct amp freq ampSum)
  case 0
  then have "\<not> oct < octaves" by simp
  then show ?case by (subst OctaveLoop.simps) simp
next
  case (Suc n)
  then have "oct < octaves" "n = nat (octaves - (oct + 1))" by simp_all
  with Suc.hyps(1) [of "oct + 1" "amp * 0.5" "freq * 2" "ampSum + amp"]
  show ?case by (subst OctaveLoop.simps) (simp add: PerlinNoise_origin)
qed

lemma CellValue_origin: "CellValue t width height frequency octaves 0 0 = 1 / 2"
proof -
  obtain sm amp freq ampSum where
    o: "OctaveLoop t 0 0 octaves 0 (0, 1, frequency, 0) = (sm, amp, freq, ampSum)"
    by (cases "OctaveLoop t 0 0 octaves 0 (0, 1, frequency, 0)") auto
  with OctaveLoop_origin [of t octaves 0 1 frequency 0] have "sm = 0" by simp
  with o show ?thesis by (simp add: CellValue_def)
qed

lemma PerlinNoise_perm:
  "mPermutation t' = mPermutation t \<Longrightarrow> PerlinNoise t' x z = PerlinNoise t x z"
  by (simp add: PerlinNoise_def)

lemma OctaveLoop_perm:
  assumes "mPermutation t' = mPermutation t"
  shows "OctaveLoop t' nx nz octaves oct st = OctaveLoop t nx nz octaves oct st"
proof (induction "nat (octaves - oct)" arbitrary: oct st)
  case 0
  obtain sm amp freq ampSum where st: "st = (sm, amp, freq, ampSum)" by (cases st) auto
  from 0 have "\<not> oct < octaves" by simp
  then show ?case unfolding st by (subst OctaveLoop.simps, subst (2) OctaveLoop.simps) simp
next
  case (Suc n)
  obtain sm amp freq ampSum where st: "st = (sm, amp, freq, ampSum)" by (cases st) auto
  from Suc have lt: "oct < octaves" and n: "n = nat (octaves - (oct + 1))" by simp_all
  show ?case
    unfolding st
    by (subst OctaveLoop.simps, subst (2) OctaveLoop.simps)
       (simp add: lt Suc.hyps(1) [OF n] PerlinNoise_perm [OF assms])
qed

lemma CellValue_perm:
  "mPermutation t' = mPermutation t \<Longrightarrow>
   CellValue t' width height frequency octaves x z = CellValue t width height frequency octaves x z"
  by (simp add: CellValue_def OctaveLoop_perm [of t' t])

lemma fold_triple:
  "fold (\<lambda>x (hm, hi, lo). (g x hm, max hi (V x), min lo (V x))) xs (hm, hi, lo) =
     (fold g xs hm, fold (\<lambda>x hi. max hi (V x)) xs hi, fold (\<lambda>x lo. min lo (V x)) xs lo)"
  by (induction xs arbitrary: hm hi lo) simp_all

lemma fold_fold_triple:
  "fold (\<lambda>z. fold (\<lambda>x (hm, hi, lo). (g z x hm, max hi (V z x), min lo (V z x))) xs) zs (hm, hi, lo) =
     (fold (\<lambda>z. fold (g z) xs) zs hm,
      fold (\<lambda>z. fold (\<lambda>x hi. max hi (V z x)) xs) zs hi,
      fold (\<lambda>z. fold (\<lambda>x lo. min lo (V z x)) xs) zs lo)"
  by (induction zs arbitrary: hm hi lo) (simp_all add: fold_triple)

lemma fold_max_bounds:
  fixes hi :: real
  shows "hi \<le> fold (\<lambda>x hi. max hi (V x)) xs hi \<and>
         (\<forall>x \<in> set xs. V x \<le> fold (\<lambda>x hi. max hi (V x)) xs hi) \<and>
         (fold (\<lambda>x hi. max hi (V x)) xs hi = hi \<or> fold (\<lambda>x hi. max hi (V x)) xs hi \<in> V ` set xs)"
proof (induction xs arbitrary: hi)
  case Nil
  then show ?case by simp
next
  case (Cons a xs)
  from Cons [of "max hi (V a)"] show ?case by (auto simp: max_def split: if_splits)
qed

lemma fold_min_bounds:
  fixes lo :: real
  shows "fold (\<lambda>x lo. min lo (V x)) xs lo \<le> lo \<and>
         (\<forall>x \<in> set xs. fold (\<lambda>x lo. min lo (V x)) xs lo \<le> V x) \<and>
         (fold (\<lambda>x lo. min lo (V x)) xs lo = lo \<or> fold (\<lambda>x lo. min lo (V x)) xs lo \<in> V ` set xs)"
proof (induction xs arbitrary: lo)
  case Nil
  then show ?case by simp
next
  case (Cons a xs)
  from Cons [of "min lo (V a)"] show ?case by (auto simp: min_def split: if_splits)
qed

lemma fold_fold_max_bounds:
  fixes hi :: real
  shows "hi \<le> fold (\<lambda>z. fold (\<lambda>x hi. max hi (V z x)) xs) zs hi \<and>
         (\<forall>z \<in> set zs. \<forall>x \<in> set xs. V z x \<le> fold (\<lambda>z. fold (\<lambda>x hi. max hi (V z x)) xs) zs hi) \<and>
         (fold (\<lambda>z. fold (\<lambda>x hi. max hi (V z x)) xs) zs hi = hi \<or>
          (\<exists>z \<in> set zs. \<exists>x \<in> set xs. fold (\<lambda>z. fold (\<lambda>x hi. max hi (V z x)) xs) zs hi = V z x))"
proof (induction zs arbitrary: hi)
  case Nil
  then show ?case by simp
next
  case (Cons a zs)
  let ?h = "fold (\<lambda>x hi. max hi (V a x)) xs hi"
  note row = fold_max_bounds [of hi "V a" xs]
  note rest = Cons [of ?h]
  have 1: "hi \<le> fold (\<lambda>z. fold (\<lambda>x hi. max hi (V z x)) xs) (a # zs) hi"
    using row rest by auto
  have 2: "\<forall>z \<in> set (a # zs). \<forall>x \<in> set xs. V z x \<le> fold (\<lambda>z. fold (\<lambda>x hi. max hi (V z x)) xs) (a # zs) hi"
    using row rest by (auto intro: order_trans)
  have 3: "fold (\<lambda>z. fold (\<lambda>x hi. max hi (V z x)) xs) (a # zs) hi = hi \<or>
          (\<exists>z \<in> set (a # zs). \<exists>x \<in> set xs. fold (\<lambda>z. fold (\<lambda>x hi. max hi (V z x)) xs) (a # zs) hi = V z x)"
    using row rest by auto
  from 1 2 3 show ?case by blast
qed

lemma fold_fold_min_bounds:
  fixes lo :: real
  shows "fold (\<lambda>z. fold (\<lambda>x lo. min lo (V z x)) xs) zs lo \<le> lo \<and>
         (\<forall>z \<in> set zs. \<forall>x \<in> set xs. fold (\<lambda>z. fold (\<lambda>x lo. min lo (V z x)) xs) zs lo \<le> V z x) \<and>
         (fold (\<lambda>z. fold (\<lambda>x lo. min lo (V z x)) xs) zs lo = lo \<or>
          (\<exists>z \<in> set zs. \<exists>x \<in> set xs. fold (\<lambda>z. fold (\<lambda>x lo. min lo (V z x)) xs) zs lo = V z x))"
proof (induction zs arbitrary: lo)
  case Nil
  then show ?case by simp
next
  case (Cons a zs)
  let ?l = "fold (\<lambda>x lo. min lo (V a x)) xs lo"
  note row = fold_min_bounds [of "V a" xs lo]
  note rest = Cons [of ?l]
  have 1: "fold (\<lambda>z. fold (\<lambda>x lo. min lo (V z x)) xs) (a # zs) lo \<le> lo"
    using row rest by auto
  have 2: "\<forall>z \<in> set (a # zs). \<forall>x \<in> set xs. fold (\<lambda>z. fold (\<lambda>x lo. min lo (V z x)) xs) (a # zs) lo \<le> V z x"
    using row rest by (auto intro: order_trans)
  have 3: "fold (\<lambda>z. fold (\<lambda>x lo. min lo (V z x)) xs) (a # zs) lo = lo \<or>
          (\<exists>z \<in> set (a # zs). \<exists>x \<in> set xs. fold (\<lambda>z. fold (\<lambda>x lo. min lo (V z x)) xs) (a # zs) lo = V z x)"
    using row rest by auto
  from 1 2 3 show ?case by blast
qed

lemma fold_row_nth:
  "length (fold (\<lambda>x hm. hm[b + x := V x]) [0 ..< k] hm) = length hm \<and>
   (\<forall>j < length hm. fold (\<lambda>x hm. hm[b + x := V x]) [0 ..< k] hm ! j =
      (if b \<le> j \<and> j < b + k then V (j - b) else hm ! j))"
proof (induction k)
  case 0
  then show ?case by auto
next
  case (Suc k)
  let ?p = "fold (\<lambda>x hm. hm[b + x := V x]) [0 ..< k] hm"
  from Suc have l: "length ?p = length hm"
    and n: "\<And>j. j < length hm \<Longrightarrow> ?p ! j = (if b \<le> j \<and> j < b + k then V (j - b) else hm ! j)"
    by simp_all
  have f: "fold (\<lambda>x hm. hm[b + x := V x]) [0 ..< Suc k] hm = ?p[b + k := V k]"
    by simp
  show ?case
    unfolding f
  proof (intro conjI allI impI)
    show "length (?p[b + k := V k]) = length hm" using l by simp
  next
    fix j assume j: "j < length hm"
    show "?p[b + k := V k] ! j = (if b \<le> j \<and> j < b + Suc k then V (j - b) else hm ! j)"
    proof (cases "j = b + k")
      case True
      with j l show ?thesis by simp
    next
      case False
      then have "?p[b + k := V k] ! j = ?p ! j" by simp
      also have "\<dots> = (if b \<le> j \<and> j < b + k then V (j - b) else hm ! j)" by (rule n [OF j])
      also have "\<dots> = (if b \<le> j \<and> j < b + Suc k then V (j - b) else hm ! j)"
        using False by auto
      finally show ?thesis .
    qed
  qed
qed

lemma row_div_mod:
  fixes j m W :: nat
  assumes "m * W \<le> j" and "j < m * W + W"
  shows "j div W = m \<and> j mod W = j - m * W"
proof -
  from assms have d: "j div W = m"
    by (intro div_nat_eqI) (simp_all add: mult.commute)
  have "j mod W = j - (j div W) * W"
    by (simp add: minus_div_mult_eq_mod)
  with d show ?thesis by simp
qed

lemma fold_grid_nth:
  "length (fold (\<lambda>z. fold (\<lambda>x hm. hm[z * W + x := V z x]) [0 ..< W]) [0 ..< m] hm) = length hm \<and>
   (\<forall>j < length hm.
      fold (\<lambda>z. fold (\<lambda>x hm. hm[z * W + x := V z x]) [0 ..< W]) [0 ..< m] hm ! j =
        (if j < m * W then V (j div W) (j mod W) else hm ! j))"
proof (induction m)
  case 0
  then show ?case by simp
next
  case (Suc m)
  let ?p = "fold (\<lambda>z. fold (\<lambda>x hm. hm[z * W + x := V z x]) [0 ..< W]) [0 ..< m] hm"
  from Suc have l: "length ?p = length hm"
    and n: "\<And>j. j < length hm \<Longrightarrow> ?p ! j = (if j < m * W then V (j div W) (j mod W) else hm ! j)"
    by simp_all
  have f: "fold (\<lambda>z. fold (\<lambda>x hm. hm[z * W + x := V z x]) [0 ..< W]) [0 ..< Suc m] hm =
           fold (\<lambda>x hm. hm[m * W + x := V m x]) [0 ..< W] ?p"
    by simp
  note row = fold_row_nth [of "m * W" "V m" W ?p]
  show ?case
    unfolding f
  proof (intro conjI allI impI)
    show "length (fold (\<lambda>x hm. hm[m * W + x := V m x]) [0 ..< W] ?p) = length hm"
      using row l by simp
  next
    fix j assume j: "j < length hm"
    with l have j': "j < length ?p" by simp
    from row j' have r: "fold (\<lambda>x hm. hm[m * W + x := V m x]) [0 ..< W] ?p ! j =
        (if m * W \<le> j \<and> j < m * W + W then V m (j - m * W) else ?p ! j)"
      by blast
    show "fold (\<lambda>x hm. hm[m * W + x := V m x]) [0 ..< W] ?p ! j =
        (if j < Suc m * W then V (j div W) (j mod W) else hm ! j)"
    proof (cases "m * W \<le> j \<and> j < m * W + W")
      case True
      then have "j div W = m \<and> j mod W = j - m * W" by (intro row_div_mod) simp_all
      with True r show ?thesis by simp
    next
      case False
      with r have "fold (\<lambda>x hm. hm[m * W + x := V m x]) [0 ..< W] ?p ! j = ?p ! j" by simp
      also have "\<dots> = (if j < m * W then V (j div W) (j mod W) else hm ! j)" by (rule n [OF j])
      also have "\<dots> = (if j < Suc m * W then V (j div W) (j mod W) else hm ! j)"
        using False by auto
      finally show ?thesis .
    qed
  qed
qed

lemma GenerateProceduralHeightmap_folds:
  "GenerateProceduralHeightmap t width height frequency octaves =
     t\<lparr>mHeightmapWidth := width, mHeightmapHeight := height,
       mHeightmap :=
         (let V = (\<lambda>z x. CellValue t width height frequency octaves x z);
              hm = fold (\<lambda>z. fold (\<lambda>x hm. hm[z * unat width + x := V z x]) [0 ..< unat width])
                     [0 ..< unat height] (replicate (unat width * unat height) 0);
              hi = fold (\<lambda>z. fold (\<lambda>x hi. max hi (V z x)) [0 ..< unat width]) [0 ..< unat height] 0;
              lo = fold (\<lambda>z. fold (\<lambda>x lo. min lo (V z x)) [0 ..< unat width]) [0 ..< unat height] 1
          in if hi - lo > 0.001 then map (\<lambda>h. (h - lo) / (hi - lo)) hm else hm)\<rparr>"
proof -
  let ?t1 = "t\<lparr>mHeightmapWidth := width, mHeightmapHeight := height,
                 mHeightmap := replicate (unat width * unat height) 0\<rparr>"
  have c: "CellValue ?t1 width height frequency octaves x z = CellValue t width height frequency octaves x z"
    for x z by (rule CellValue_perm) simp
  show ?thesis
    unfolding GenerateProceduralHeightmap_def Let_def c
    unfolding fold_fold_triple [where g = "\<lambda>z x hm. hm[z * unat width + x := CellValue t width height frequency octaves x z]"
                   and V = "\<lambda>z x. CellValue t width height frequency octaves x z"]
    by simp
qed

lemma grid_fold_is_RawGrid:
  "fold (\<lambda>z. fold (\<lambda>x hm. hm[z * unat width + x := CellValue t width height frequency octaves x z]) [0 ..< unat width])
        [0 ..< unat height] (replicate (unat width * unat height) 0)
   = RawGrid t width height frequency octaves"
proof (rule nth_equalityI)
  let ?W = "unat width" and ?H = "unat height"
  let ?V = "\<lambda>z x. CellValue t width height frequency octaves x z"
  note g = fold_grid_nth [of ?W ?V ?H "replicate (?W * ?H) 0"]
  show "length (fold (\<lambda>z. fold (\<lambda>x hm. hm[z * ?W + x := ?V z x]) [0 ..< ?W]) [0 ..< ?H] (replicate (?W * ?H) 0))
        = length (RawGrid t width height frequency octaves)"
    using g by (simp add: RawGrid_def)
  fix j assume "j < length (fold (\<lambda>z. fold (\<lambda>x hm. hm[z * ?W + x := ?V z x]) [0 ..< ?W]) [0 ..< ?H] (replicate (?W * ?H) 0))"
  with g have j: "j < ?W * ?H" by simp
  with g have "fold (\<lambda>z. fold (\<lambda>x hm. hm[z * ?W + x := ?V z x]) [0 ..< ?W]) [0 ..< ?H] (replicate (?W * ?H) 0) ! j
      = ?V (j div ?W) (j mod ?W)"
    by (simp add: mult.commute)
  also have "\<dots> = RawGrid t width height frequency octaves ! j"
    using j by (simp add: RawGrid_def)
  finally show "fold (\<lambda>z. fold (\<lambda>x hm. hm[z * ?W + x := ?V z x]) [0 ..< ?W]) [0 ..< ?H] (replicate (?W * ?H) 0) ! j
      = RawGrid t width height frequency octaves ! j" .
qed

lemma GenerateProceduralHeightmap_sized:
  "heightmap_sized (GenerateProceduralHeightmap t width height frequency octaves)"
proof -
  have "length (fold (\<lambda>z. fold (\<lambda>x hm. hm[z * unat width + x := CellValue t width height frequency octaves x z]) [0 ..< unat width])
        [0 ..< unat height] (replicate (unat width * unat height) 0)) = unat width * unat height"
    unfolding grid_fold_is_RawGrid by (simp add: RawGrid_def)
  then show ?thesis
    unfolding GenerateProceduralHeightmap_folds heightmap_sized_def Let_def by simp
qed

lemma RawGrid_member:
  assumes "x < unat width" and "z < unat height"
  shows "CellValue t width height frequency octaves x z \<in> set (RawGrid t width height frequency octaves)"
proof -
  let ?W = "unat width" and ?H = "unat height"
  have "z * ?W + x < (z + 1) * ?W" using assms(1) by simp
  also have "\<dots> \<le> ?H * ?W" using assms(2) by (intro mult_le_mono1) simp
  finally have i: "z * ?W + x < ?W * ?H" by (simp add: mult.commute)
  have "RawGrid t width height frequency octaves ! (z * ?W + x) =
          CellValue t width height frequency octaves x z"
    using i assms(1) by (simp add: RawGrid_def)
  moreover have "z * ?W + x < length (RawGrid t width height frequency octaves)"
    using i by (simp add: RawGrid_def)
  ultimately show ?thesis by (metis nth_mem)
qed

lemma RawGrid_elem:
  assumes "v \<in> set (RawGrid t width height frequency octaves)"
  shows "\<exists>x < unat width. \<exists>z < unat height. v = CellValue t width height frequency octaves x z"
proof -
  let ?W = "unat width" and ?H = "unat height"
  from assms obtain i where i: "i < ?W * ?H"
    and v: "v = CellValue t width height frequency octaves (i mod ?W) (i div ?W)"
    by (auto simp: RawGrid_def)
  from i have w: "0 < ?W" by (cases "?W = 0") simp_all
  then have "i mod ?W < ?W" by simp
  moreover from i have "i div ?W < ?H"
    by (simp add: less_mult_imp_div_less mult.commute)
  ultimately show ?thesis using v by blast
qed

lemma RawGrid_extremes:
  assumes "1 \<le> unat width" and "1 \<le> unat height"
  shows "fold (\<lambda>z. fold (\<lambda>x hi. max hi (CellValue t width height frequency octaves x z)) [0 ..< unat width])
              [0 ..< unat height] 0 = Max (set (RawGrid t width height frequency octaves))"
    and "fold (\<lambda>z. fold (\<lambda>x lo. min lo (CellValue t width height frequency octaves x z)) [0 ..< unat width])
              [0 ..< unat height] 1 = Min (set (RawGrid t width height frequency octaves))"
proof -
  let ?W = "unat width" and ?H = "unat height"
  let ?V = "\<lambda>z x. CellValue t width height frequency octaves x z"
  let ?raw = "RawGrid t width height frequency octaves"
  let ?hi = "fold (\<lambda>z. fold (\<lambda>x hi. max hi (?V z x)) [0 ..< ?W]) [0 ..< ?H] 0"
  let ?lo = "fold (\<lambda>z. fold (\<lambda>x lo. min lo (?V z x)) [0 ..< ?W]) [0 ..< ?H] 1"
  from assms have o: "0 \<in> set [0 ..< ?W]" "0 \<in> set [0 ..< ?H]" by simp_all
  have half: "?V 0 0 = 1 / 2" by (rule CellValue_origin)
  note hb = fold_fold_max_bounds [where hi = 0 and V = ?V and xs = "[0 ..< ?W]" and zs = "[0 ..< ?H]"]
  note lb = fold_fold_min_bounds [where lo = 1 and V = ?V and xs = "[0 ..< ?W]" and zs = "[0 ..< ?H]"]
  from hb o have "?V 0 0 \<le> ?hi" by blast
  with half have hi_pos: "?hi \<noteq> 0" by simp
  from lb o have "?lo \<le> ?V 0 0" by blast
  with half have lo_small: "?lo \<noteq> 1" by simp
  from hb hi_pos obtain z x where "z < ?H" "x < ?W" "?hi = ?V z x" by auto
  then have hi_in: "?hi \<in> set ?raw" using RawGrid_member [of x width z height t frequency octaves] by simp
  from lb lo_small obtain z' x' where "z' < ?H" "x' < ?W" "?lo = ?V z' x'" by auto
  then have lo_in: "?lo \<in> set ?raw" using RawGrid_member [of x' width z' height t frequency octaves] by simp
  have hi_ub: "v \<le> ?hi" if "v \<in> set ?raw" for v
  proof -
    from RawGrid_elem [OF that] obtain x z where "x < ?W" "z < ?H" "v = ?V z x" by blast
    with hb show ?thesis by simp
  qed
  have lo_lb: "?lo \<le> v" if "v \<in> set ?raw" for v
  proof -
    from RawGrid_elem [OF that] obtain x z where "x < ?W" "z < ?H" "v = ?V z x" by blast
    with lb show ?thesis by simp
  qed
  show "?hi = Max (set ?raw)"
    by (rule Max_eqI [symmetric]) (simp_all add: hi_ub hi_in)
  show "?lo = Min (set ?raw)"
    by (rule Min_eqI [symmetric]) (simp_all add: lo_lb lo_in)
qed

lemma perm0_nth:
  "i < 256 \<Longrightarrow> mPermutation terrain0 ! i = int i"
  by (simp add: terrain0_def nth_append)

lemma cell10: "CellValue terrain0 2 1 1 1 (Suc 0) 0 = 3 / 4"
proof -
  have "OctaveLoop terrain0 (1 / 2) 0 1 0 (0, 1, 1, 0) = (1 / 2, 1 / 2, 2, 1)"
    by (subst OctaveLoop.simps, subst OctaveLoop.simps)
       (simp add: PerlinNoise_def Let_def perm0_nth Fade_def Lerp_def Grad_def)
  then show ?thesis by (simp add: CellValue_def)
qed

lemma raw21: "RawGrid terrain0 2 1 1 1 = [1 / 2, 3 / 4]"
  by (simp add: RawGrid_def upt_conv_Cons CellValue_origin cell10)

text \<open>
  C4. For \<open>width \<ge> 1\<close>, \<open>height \<ge> 1\<close> and \<open>octaves \<ge> 1\<close> the stored grid has
  \<open>width * height\<close> samples; when the maximum of the generated values exceeds
  their minimum by more than 0.001, the stored grid has minimum 0 and maximum 1;
  otherwise the generated values are stored as they are.
\<close>

theorem GenerateProceduralHeightmap_normalised:
  assumes "1 \<le> unat width" and "1 \<le> unat height" and "1 \<le> octaves"
  shows "length (mHeightmap (GenerateProceduralHeightmap t width height frequency octaves)) =
           unat width * unat height \<and>
         (if Max (set (RawGrid t width height frequency octaves))
               - Min (set (RawGrid t width height frequency octaves)) > 0.001
          then Min (set (mHeightmap (GenerateProceduralHeightmap t width height frequency octaves))) = 0 \<and>
               Max (set (mHeightmap (GenerateProceduralHeightmap t width height frequency octaves))) = 1
          else mHeightmap (GenerateProceduralHeightmap t width height frequency octaves) =
                 RawGrid t width height frequency octaves)"
proof -
  let ?raw = "RawGrid t width height frequency octaves"
  let ?hi = "Max (set ?raw)" and ?lo = "Min (set ?raw)"
  let ?f = "\<lambda>h. (h - ?lo) / (?hi - ?lo)"
  have hm: "mHeightmap (GenerateProceduralHeightmap t width height frequency octaves) =
        (if ?hi - ?lo > 0.001 then map ?f ?raw else ?raw)"
    unfolding GenerateProceduralHeightmap_folds Let_def grid_fold_is_RawGrid
      RawGrid_extremes [OF assms(1,2)]
    by simp
  have len: "length ?raw = unat width * unat height" by (simp add: RawGrid_def)
  from assms(1,2) have "0 < unat width * unat height" by simp
  with len have ne: "set ?raw \<noteq> {}" by auto
  have hi_in: "?hi \<in> set ?raw" using ne by (intro Max_in) simp_all
  have lo_in: "?lo \<in> set ?raw" using ne by (intro Min_in) simp_all
  show ?thesis
  proof (cases "?hi - ?lo > 0.001")
    case False
    with hm len show ?thesis by simp
  next
    case True
    then have pos: "0 < ?hi - ?lo" by simp
    have "Min (set (map ?f ?raw)) = 0"
    proof (rule Min_eqI)
      show "finite (set (map ?f ?raw))" by simp
      show "0 \<le> y" if "y \<in> set (map ?f ?raw)" for y
      proof -
        from that obtain h where h: "h \<in> set ?raw" "y = ?f h" by auto
        then have "?lo \<le> h" by simp
        with pos h(2) show ?thesis by simp
      qed
      from lo_in have "?f ?lo \<in> set (map ?f ?raw)" by (simp only: set_map image_eqI)
      then show "0 \<in> set (map ?f ?raw)" by simp
    qed
    moreover have "Max (set (map ?f ?raw)) = 1"
    proof (rule Max_eqI)
      show "finite (set (map ?f ?raw))" by simp
      show "y \<le> 1" if "y \<in> set (map ?f ?raw)" for y
      proof -
        from that obtain h where h: "h \<in> set ?raw" "y = ?f h" by auto
        then have "h \<le> ?hi" by simp
        with pos h(2) show ?thesis by simp
      qed
      from hi_in have "?f ?hi \<in> set (map ?f ?raw)" by (simp only: set_map image_eqI)
      with pos show "1 \<in> set (map ?f ?raw)" by simp
    qed
    ultimately show ?thesis using True hm len by simp
  qed
qed

theorem GenerateProceduralHeightmap_normalised_witness:
  "1 \<le> unat (2 :: UINT) \<and> 1 \<le> unat (1 :: UINT) \<and> (1 :: int) \<le> 1 \<and>
   Max (set (RawGrid terrain0 2 1 1 1)) - Min (set (RawGrid terrain0 2 1 1 1)) > 0.001 \<and>
   Min (set (mHeightmap (GenerateProceduralHeightmap terrain0 2 1 1 1))) = 0 \<and>
   Max (set (mHeightmap (GenerateProceduralHeightmap terrain0 2 1 1 1))) = 1"
proof -
  have a: "1 \<le> unat (2 :: UINT)" and b: "1 \<le> unat (1 :: UINT)" and c: "(1 :: int) \<le> 1"
    by simp_all
  have d: "Max (set (RawGrid terrain0 2 1 1 1)) - Min (set (RawGrid terrain0 2 1 1 1)) > 0.001"
    by (simp add: raw21)
  from GenerateProceduralHeightmap_normalised [OF a b c, of terrain0 1] d
  have "Min (set (mHeightmap (GenerateProceduralHeightmap terrain0 2 1 1 1))) = 0 \<and>
        Max (set (mHeightmap (GenerateProceduralHeightmap terrain0 2 1 1 1))) = 1"
    by (simp only: if_True)
  with a b c d show ?thesis by blast
qed

end
